theory Spec2Isabelle
  imports Complex_Main "HOL-Library.Word"
begin

unbundle bit_operations_syntax

section \<open>GlueUi: the immediate-mode widget layer of \<^verbatim>\<open>src/GlueUi.py\<close>\<close>

text \<open>
  The widget methods of \<^verbatim>\<open>UiManager\<close> are embedded as functions over an explicit
  engine state. Three things the Python code does besides returning a value are made
  explicit:
  \<^item> mutation of \<^verbatim>\<open>self\<close>: every method takes the state and returns the new one;
  \<^item> exceptions: a method returns \<open>Inl e\<close> where the Python raises, together with the
    state as it was when the exception left the method (mutations made before a
    \<^verbatim>\<open>raise\<close> persist in Python);
  \<^item> calls into SDL that paint on the window surface, and the call of the
    \<^verbatim>\<open>OnClick\<close> handler: every method returns the list of such calls it issued,
    in order.
  What SDL answers when asked (the mouse state, the size of a rendered text surface) is
  the parameter \<open>be\<close> of each method.
\<close>

subsection \<open>Values\<close>

text \<open>\<^verbatim>\<open>class Nat2\<close> (lines 23-40): a pair of Python integers, which are unbounded.\<close>

record Nat2 =
  X :: int
  Y :: int

text \<open>\<^verbatim>\<open>Nat2.__add__\<close> with another \<^verbatim>\<open>Nat2\<close> (line 31) and with an \<^verbatim>\<open>int\<close> (line 34).\<close>

definition Nat2_add :: "Nat2 \<Rightarrow> Nat2 \<Rightarrow> Nat2" where
  "Nat2_add a other = \<lparr>X = X a + X other, Y = Y a + Y other\<rparr>"

definition Nat2_add_int :: "Nat2 \<Rightarrow> int \<Rightarrow> Nat2" where
  "Nat2_add_int a other = \<lparr>X = X a + other, Y = Y a + other\<rparr>"

text \<open>\<^verbatim>\<open>class Rect\<close> (lines 42-45).\<close>

record Rect =
  XY :: Nat2
  WH :: Nat2

text \<open>
  \<^verbatim>\<open>class Vec4\<close> (lines 47-52). The components are Python floats; the modelled methods
  only pass colours on, so the components stand for themselves and no arithmetic is
  done on them.
\<close>

datatype Vec4 = Vec4 real real real real

text \<open>The exceptions the modelled methods can raise.\<close>

datatype error = IndexError | KeyError | RuntimeError | ValueError | HandlerError

text \<open>
  Indexing a Python list with an integer: a negative index counts from the end, and an
  index that is still out of range after that raises \<^verbatim>\<open>IndexError\<close>.
\<close>

definition py_index :: "'a list \<Rightarrow> int \<Rightarrow> error + 'a" where
  "py_index xs i =
     (let n = int (length xs); j = (if i < 0 then i + n else i)
      in if 0 \<le> j \<and> j < n then Inr (xs ! nat j) else Inl IndexError)"

text \<open>The indices that are out of range for a list: those outside \<open>[-len, len)\<close>.\<close>

abbreviation out_of_range :: "int \<Rightarrow> 'a list \<Rightarrow> bool" where
  "out_of_range i xs \<equiv> i < - int (length xs) \<or> int (length xs) \<le> i"

text \<open>
  \<^verbatim>\<open>str.split("\n")\<close>: the pieces between the separators, empty pieces kept; the
  empty string splits into one empty piece. \<open>cur\<close> is the piece being read.
\<close>

fun split_acc :: "char \<Rightarrow> string \<Rightarrow> string \<Rightarrow> string list" where
  "split_acc sep cur [] = [cur]"
| "split_acc sep cur (c # cs) =
     (if c = sep then cur # split_acc sep [] cs else split_acc sep (cur @ [c]) cs)"

definition split_newline :: "string \<Rightarrow> string list" where
  "split_newline s = split_acc (CHR 0x0A) [] s"

text \<open>
  \<^verbatim>\<open>sep.join(parts)\<close>, the pieces put back together with the separator between
  them. It is used to say what a split on newline is: the pieces hold no newline and
  join to the string that was split.
\<close>

fun join_with :: "char \<Rightarrow> string list \<Rightarrow> string" where
  "join_with sep [] = []"
| "join_with sep [p] = p"
| "join_with sep (p # q # ps) = p @ sep # join_with sep (q # ps)"

subsection \<open>The SDL side\<close>

text \<open>
  A font is an opaque handle. \<open>x_pos\<close>, \<open>y_pos\<close> and \<open>button_state\<close> are what
  \<^verbatim>\<open>SDL_GetMouseState\<close> gives (lines 243-249, 275-278); SDL changes them only when
  events are pumped, which \<^verbatim>\<open>MainLoop\<close> does between frames, so they are fixed during
  one widget call. \<open>TTF_RenderUTF8_Blended\<close> gives the width and height of the surface
  rendered for a font, a string and a colour, or \<open>None\<close> for the null surface.
\<close>

type_synonym font = nat

record backend =
  x_pos :: int
  y_pos :: int
  button_state :: "32 word"
  TTF_RenderUTF8_Blended :: "font \<Rightarrow> string \<Rightarrow> Vec4 \<Rightarrow> (int \<times> int) option"

text \<open>The button constants and the mask macro of \<^verbatim>\<open>SDL_mouse.h\<close>.\<close>

definition SDL_BUTTON_LEFT :: nat where "SDL_BUTTON_LEFT = 1"
definition SDL_BUTTON_MIDDLE :: nat where "SDL_BUTTON_MIDDLE = 2"
definition SDL_BUTTON_RIGHT :: nat where "SDL_BUTTON_RIGHT = 3"

definition SDL_BUTTON :: "nat \<Rightarrow> 32 word" where
  "SDL_BUTTON b = push_bit (b - 1) 1"

text \<open>
  A field of an \<^verbatim>\<open>SDL_Rect\<close> is a C \<^verbatim>\<open>int\<close>: ctypes stores a Python integer in it
  without a range check, keeping its low 32 bits as a two's complement value, and
  gives that value back when the field is read. \<open>SDL_Rect\<close> is the rectangle
  \<^verbatim>\<open>sdl2.SDL_Rect(x, y, w, h)\<close> with the fields as they read back: \<open>XY\<close> holds
  \<^verbatim>\<open>x\<close> and \<^verbatim>\<open>y\<close>, \<open>WH\<close> holds \<^verbatim>\<open>w\<close> and \<^verbatim>\<open>h\<close>.
\<close>

definition c_int :: "int \<Rightarrow> int" where
  "c_int v = sint (word_of_int v :: 32 word)"

definition SDL_Rect :: "int \<Rightarrow> int \<Rightarrow> int \<Rightarrow> int \<Rightarrow> Rect" where
  "SDL_Rect x y w h = \<lparr>XY = \<lparr>X = c_int x, Y = c_int y\<rparr>, WH = \<lparr>X = c_int w, Y = c_int h\<rparr>\<rparr>"

text \<open>The integers a C \<^verbatim>\<open>int\<close> field holds unchanged.\<close>

abbreviation fits_c_int :: "int \<Rightarrow> bool" where
  "fits_c_int v \<equiv> - 2147483648 \<le> v \<and> v < 2147483648"

text \<open>
  The calls a method issues: \<^verbatim>\<open>SDL_FillRect\<close> with the \<^verbatim>\<open>SDL_Rect\<close> and the colour
  (line 292), \<^verbatim>\<open>SDL_BlitSurface\<close> of the surface rendered for a string, font and
  colour onto a destination \<^verbatim>\<open>SDL_Rect\<close> (line 323), and the call of a click handler,
  with the calls issued inside the handler.
\<close>

datatype event =
    FillRect Rect Vec4
  | BlitSurface string font Vec4 Rect
  | OnClickCall "event list"

subsection \<open>The engine state\<close>

text \<open>
  The dictionaries stored per label (line 122 and line 207). The checkbox dictionary's
  key \<^verbatim>\<open>"mouse_down"\<close> is the field \<open>cb_mouse_down\<close>.
\<close>

record button_rec =
  active :: bool
  mouse_down :: bool
  prev_mouse_down :: bool

record checkbox_rec =
  checked :: bool
  cb_mouse_down :: bool

text \<open>The fields of \<^verbatim>\<open>UiManager\<close> that the widget methods read or write (lines 83-97).\<close>

record ui =
  Running :: bool
  Fonts :: "(string \<times> font) list"
  ActiveMenu :: string
  CheckboxStates :: "string \<rightharpoonup> checkbox_rec"
  Buttons :: "string \<rightharpoonup> button_rec"
  ColorPalette :: "Vec4 list"
  IsDarkMode :: bool

text \<open>The state \<^verbatim>\<open>__init__\<close> sets up (lines 83-97).\<close>

definition UiManager_init :: ui where
  "UiManager_init =
     \<lparr>Running = True, Fonts = [], ActiveMenu = ''Main'',
      CheckboxStates = Map.empty, Buttons = Map.empty,
      ColorPalette = [Vec4 0 0.922 0.451 1, Vec4 0 0.78 0.376 1, Vec4 0 0.62 0.298 1,
                      Vec4 0 0.459 0.224 1, Vec4 0 0.302 0.149 1],
      IsDarkMode = True\<rparr>"

subsection \<open>Methods as actions\<close>

text \<open>
  An action takes the state and gives the value returned or the exception raised, the
  state afterwards, and the calls issued.
\<close>

type_synonym 'a action = "ui \<Rightarrow> (error + 'a) \<times> ui \<times> event list"

definition ret :: "'a \<Rightarrow> 'a action" where
  "ret v u = (Inr v, u, [])"

definition raise :: "error \<Rightarrow> 'a action" where
  "raise e u = (Inl e, u, [])"

definition lift :: "error + 'a \<Rightarrow> 'a action" where
  "lift r u = (r, u, [])"

definition emit :: "event \<Rightarrow> unit action" where
  "emit ev u = (Inr (), u, [ev])"

definition modify :: "(ui \<Rightarrow> ui) \<Rightarrow> unit action" where
  "modify f u = (Inr (), f u, [])"

text \<open>One statement after another: an exception in the first skips the second.\<close>

definition seq :: "'a action \<Rightarrow> ('a \<Rightarrow> 'b action) \<Rightarrow> 'b action" where
  "seq f g u =
     (case f u of
        (Inl e, u', es) \<Rightarrow> (Inl e, u', es)
      | (Inr v, u', es) \<Rightarrow> (case g v u' of (r, u'', es') \<Rightarrow> (r, u'', es @ es')))"

text \<open>
  Calling a handler: the handler is itself an action; its calls are recorded inside
  one \<open>OnClickCall\<close>.
\<close>

definition call :: "unit action \<Rightarrow> unit action" where
  "call h u = (case h u of (r, u', es) \<Rightarrow> (r, u', [OnClickCall es]))"

subsection \<open>Mouse and hit test\<close>

text \<open>\<^verbatim>\<open>IsClick\<close> (lines 251-262).\<close>

definition IsClick :: "backend \<Rightarrow> string \<Rightarrow> error + bool" where
  "IsClick be Button_name =
     (if Button_name = ''Left'' then Inr (button_state be AND SDL_BUTTON SDL_BUTTON_LEFT \<noteq> 0)
      else if Button_name = ''Right'' then Inr (button_state be AND SDL_BUTTON SDL_BUTTON_RIGHT \<noteq> 0)
      else if Button_name = ''Middle'' then Inr (button_state be AND SDL_BUTTON SDL_BUTTON_MIDDLE \<noteq> 0)
      else Inl ValueError)"

text \<open>\<^verbatim>\<open>GetCursorPosition\<close> (lines 273-278).\<close>

definition GetCursorPosition :: "backend \<Rightarrow> Nat2" where
  "GetCursorPosition be = \<lparr>X = x_pos be, Y = y_pos be\<rparr>"

text \<open>\<^verbatim>\<open>PointInsideRect\<close> (lines 270-271).\<close>

definition PointInsideRect :: "Nat2 \<Rightarrow> Nat2 \<Rightarrow> Nat2 \<Rightarrow> bool" where
  "PointInsideRect Point RectPos RectSize =
     (X RectPos \<le> X Point \<and> X Point \<le> X RectPos + X RectSize \<and>
      Y RectPos \<le> Y Point \<and> Y Point \<le> Y RectPos + Y RectSize)"

text \<open>\<^verbatim>\<open>RectIsHover\<close> (lines 264-265).\<close>

definition RectIsHover :: "backend \<Rightarrow> Rect \<Rightarrow> bool" where
  "RectIsHover be TRect = PointInsideRect (GetCursorPosition be) (XY TRect) (WH TRect)"

subsection \<open>Palette, rectangle, text\<close>

text \<open>\<^verbatim>\<open>SwitchMode\<close> (lines 157-158) and \<^verbatim>\<open>ColorPaletteMode\<close> (lines 160-161).\<close>

definition SwitchMode :: "unit action" where
  "SwitchMode = modify (\<lambda>u. u\<lparr>IsDarkMode := \<not> IsDarkMode u\<rparr>)"

definition ColorPaletteMode :: "ui \<Rightarrow> Vec4 list" where
  "ColorPaletteMode u = (if \<not> IsDarkMode u then rev (ColorPalette u) else ColorPalette u)"

text \<open>\<^verbatim>\<open>UiManager.Rect\<close> (lines 287-293).\<close>

definition Rect_draw :: "Nat2 \<Rightarrow> Nat2 \<Rightarrow> int \<Rightarrow> unit action" where
  "Rect_draw Pos Size ColorIdx =
     (\<lambda>u. seq (lift (py_index (ColorPaletteMode u) ColorIdx))
             (\<lambda>Color.
                let RectSdl = SDL_Rect (X Pos) (Y Pos) (X Size) (Y Size)
                in emit (FillRect RectSdl Color)) u)"

text \<open>
  \<^verbatim>\<open>Text\<close> (lines 304-327): the colour is looked up first, then the font registry is
  checked, the font is looked up by name, the text is rendered, and the surface is
  blitted unless \<open>NoDraw\<close>. The rectangle returned is read back from the
  \<^verbatim>\<open>SDL_Rect\<close> (lines 319-322).
\<close>

definition Text :: "backend \<Rightarrow> string \<Rightarrow> Nat2 \<Rightarrow> string \<Rightarrow> int \<Rightarrow> bool \<Rightarrow> Rect action" where
  "Text be Str Pos FontName ColorIdx NoDraw =
     (\<lambda>u. seq (lift (py_index (ColorPaletteMode u) ColorIdx)) (\<lambda>Color.
           if length (Fonts u) = 0 then raise RuntimeError
           else
             seq (lift (case map_of (Fonts u) FontName of
                          None \<Rightarrow> Inl KeyError | Some Font \<Rightarrow> Inr Font)) (\<lambda>Font.
             case TTF_RenderUTF8_Blended be Font Str Color of
               None \<Rightarrow> raise RuntimeError
             | Some (w, h) \<Rightarrow>
                 (let TextRect = SDL_Rect (X Pos) (Y Pos) w h;
                      Rxy = \<lparr>X = X (XY TextRect), Y = Y (XY TextRect)\<rparr>;
                      Rwh = \<lparr>X = X (WH TextRect), Y = Y (WH TextRect)\<rparr>;
                      RRect = \<lparr>XY = Rxy, WH = Rwh\<rparr>
                  in seq (if \<not> NoDraw then emit (BlitSurface Str Font Color TextRect)
                          else ret ())
                       (\<lambda>_. ret RRect)))) u)"

text \<open>
  \<^verbatim>\<open>TextWrapped\<close> (lines 329-334): the loop over \<^verbatim>\<open>enumerate(Strings)\<close>, an
  exception of \<^verbatim>\<open>Text\<close> leaving the loop.
\<close>

fun TextWrapped_loop ::
  "backend \<Rightarrow> (nat \<times> string) list \<Rightarrow> Nat2 \<Rightarrow> string \<Rightarrow> int \<Rightarrow> unit action" where
  "TextWrapped_loop be [] Pos FontName ColorIdx = ret ()"
| "TextWrapped_loop be ((Idx, String) # rest) Pos FontName ColorIdx =
     (if String = [] then TextWrapped_loop be rest Pos FontName ColorIdx
      else seq (Text be String (Nat2_add Pos \<lparr>X = 0, Y = int Idx * 16\<rparr>) FontName ColorIdx False)
             (\<lambda>_. TextWrapped_loop be rest Pos FontName ColorIdx))"

definition TextWrapped :: "backend \<Rightarrow> string \<Rightarrow> Nat2 \<Rightarrow> string \<Rightarrow> int \<Rightarrow> unit action" where
  "TextWrapped be Str Pos FontName ColorIdx =
     (let Strings = split_newline Str
      in TextWrapped_loop be (enumerate 0 Strings) Pos FontName ColorIdx)"

text \<open>\<^verbatim>\<open>RectBorder\<close> (lines 163-180): top, left, bottom and right strip.\<close>

definition RectBorder :: "Nat2 \<Rightarrow> Nat2 \<Rightarrow> int \<Rightarrow> int \<Rightarrow> unit action" where
  "RectBorder Pos Size ColorIdx Thickness =
     seq (Rect_draw Pos \<lparr>X = X Size, Y = Thickness\<rparr> ColorIdx) (\<lambda>_.
     seq (Rect_draw Pos \<lparr>X = Thickness, Y = Y Size\<rparr> ColorIdx) (\<lambda>_.
     seq (Rect_draw \<lparr>X = X Pos, Y = Y Pos + Y Size - Thickness\<rparr>
            \<lparr>X = X Size, Y = Thickness\<rparr> ColorIdx) (\<lambda>_.
     Rect_draw \<lparr>X = X Pos + X Size - Thickness, Y = Y Pos\<rparr>
       \<lparr>X = Thickness, Y = Y Size\<rparr> ColorIdx)))"

subsection \<open>Button\<close>

text \<open>
  Reading and writing \<^verbatim>\<open>self.Buttons[Label]\<close>: a label that is not a key raises
  \<^verbatim>\<open>KeyError\<close>.
\<close>

definition Buttons_get :: "string \<Rightarrow> button_rec action" where
  "Buttons_get Label =
     (\<lambda>u. lift (case Buttons u Label of None \<Rightarrow> Inl KeyError | Some r \<Rightarrow> Inr r) u)"

definition Buttons_put :: "string \<Rightarrow> button_rec \<Rightarrow> unit action" where
  "Buttons_put Label r = modify (\<lambda>u. u\<lparr>Buttons := (Buttons u)(Label \<mapsto> r)\<rparr>)"

text \<open>
  \<^verbatim>\<open>Button\<close> (lines 99-152). Line 121-122 creates the record of an unseen label; lines
  125-126 measure the label and pad the rectangle; lines 135-142 choose the background
  colour and call the handler on a fresh press; lines 145-146 draw; line 149 stores the
  sampled mouse state.
\<close>

definition Button ::
  "backend \<Rightarrow> string \<Rightarrow> Nat2 \<Rightarrow> string \<Rightarrow> unit action \<Rightarrow> int \<Rightarrow> int \<Rightarrow> int
     \<Rightarrow> (Rect \<times> bool \<times> bool) action" where
  "Button be Label Pos FontName OnClick ColorTextIdx ColorHoverIdx ColorNormalIdx =
     seq (\<lambda>u. if Buttons u Label = None
              then Buttons_put Label
                     \<lparr>active = True, mouse_down = True, prev_mouse_down = True\<rparr> u
              else ret () u) (\<lambda>_.
     seq (Text be Label Pos FontName ColorTextIdx True) (\<lambda>TextRect.
     let ButtonRect = \<lparr>XY = Nat2_add_int (XY TextRect) (- 10),
                       WH = Nat2_add_int (WH TextRect) 20\<rparr>;
         hovered = RectIsHover be ButtonRect
     in
     seq (lift (IsClick be ''Left'')) (\<lambda>mouse_down.
     seq (if hovered then
            (if mouse_down then
               seq (Buttons_get Label) (\<lambda>r.
                 if \<not> prev_mouse_down r
                 then seq (call OnClick) (\<lambda>_. ret (ColorHoverIdx, True))
                 else ret (ColorHoverIdx, False))
             else ret (ColorHoverIdx, False))
          else ret (ColorNormalIdx, False)) (\<lambda>(ColorIdx, clicked).
     seq (Rect_draw (XY ButtonRect) (WH ButtonRect) ColorIdx) (\<lambda>_.
     seq (Text be Label Pos FontName ColorTextIdx False) (\<lambda>_.
     seq (Buttons_get Label) (\<lambda>r.
     seq (Buttons_put Label (r\<lparr>prev_mouse_down := mouse_down\<rparr>)) (\<lambda>_.
     ret (ButtonRect, clicked, hovered)))))))))"

subsection \<open>Checkbox\<close>

definition CheckboxStates_get :: "string \<Rightarrow> checkbox_rec action" where
  "CheckboxStates_get Label =
     (\<lambda>u. lift (case CheckboxStates u Label of None \<Rightarrow> Inl KeyError | Some r \<Rightarrow> Inr r) u)"

definition CheckboxStates_put :: "string \<Rightarrow> checkbox_rec \<Rightarrow> unit action" where
  "CheckboxStates_put Label r =
     modify (\<lambda>u. u\<lparr>CheckboxStates := (CheckboxStates u)(Label \<mapsto> r)\<rparr>)"

text \<open>
  \<^verbatim>\<open>Checkbox\<close> (lines 182-236). Lines 206-207 create the record of an unseen label;
  lines 212-222 draw the hover tint and apply the toggle; lines 225-233 draw the fill,
  the border and the label; line 236 returns the stored \<^verbatim>\<open>checked\<close> and the hover flag.
\<close>

definition Checkbox ::
  "backend \<Rightarrow> string \<Rightarrow> Nat2 \<Rightarrow> string \<Rightarrow> int \<Rightarrow> int \<Rightarrow> int \<Rightarrow> int \<Rightarrow> (bool \<times> bool) action" where
  "Checkbox be Label Pos FontName ColorBorderIdx ColorInnerIdx ColorInnerHoverIdx ColorTextIdx =
     (let CheckboxSize = \<lparr>X = 20, Y = 20\<rparr>;
          CheckboxRect = \<lparr>XY = Pos, WH = CheckboxSize\<rparr>
      in
      seq (\<lambda>u. if CheckboxStates u Label = None
               then CheckboxStates_put Label \<lparr>checked = False, cb_mouse_down = False\<rparr> u
               else ret () u) (\<lambda>_.
      let hovered = RectIsHover be CheckboxRect in
      seq (if hovered then
             seq (CheckboxStates_get Label) (\<lambda>r.
             seq (if \<not> checked r
                  then Rect_draw (Nat2_add Pos \<lparr>X = 4, Y = 4\<rparr>)
                         \<lparr>X = X CheckboxSize - 8, Y = Y CheckboxSize - 8\<rparr> ColorInnerHoverIdx
                  else ret ()) (\<lambda>_.
             seq (lift (IsClick be ''Left'')) (\<lambda>down.
             if down then
               seq (CheckboxStates_get Label) (\<lambda>r.
                 if \<not> cb_mouse_down r
                 then seq (CheckboxStates_put Label (r\<lparr>checked := \<not> checked r\<rparr>)) (\<lambda>_.
                      seq (CheckboxStates_get Label) (\<lambda>r.
                      CheckboxStates_put Label (r\<lparr>cb_mouse_down := True\<rparr>)))
                 else ret ())
             else
               seq (CheckboxStates_get Label) (\<lambda>r.
               CheckboxStates_put Label (r\<lparr>cb_mouse_down := False\<rparr>)))))
           else
             seq (CheckboxStates_get Label) (\<lambda>r.
             CheckboxStates_put Label (r\<lparr>cb_mouse_down := False\<rparr>))) (\<lambda>_.
      seq (CheckboxStates_get Label) (\<lambda>r.
      seq (if checked r
           then Rect_draw (Nat2_add Pos \<lparr>X = 4, Y = 4\<rparr>)
                  \<lparr>X = X CheckboxSize - 8, Y = Y CheckboxSize - 8\<rparr> ColorInnerIdx
           else ret ()) (\<lambda>_.
      seq (RectBorder Pos CheckboxSize ColorBorderIdx 2) (\<lambda>_.
      let LabelPos = Nat2_add Pos \<lparr>X = X CheckboxSize + 10, Y = 0\<rparr> in
      seq (Text be Label LabelPos FontName ColorTextIdx False) (\<lambda>_.
      seq (CheckboxStates_get Label) (\<lambda>r.
      ret (checked r, hovered)))))))))"

subsection \<open>Successive frames\<close>

text \<open>
  The caller's frame loop (\<^verbatim>\<open>src/examples/helloworld.py\<close>, lines 28-46) calls a widget
  once per frame, each call in the state the previous one left and with the mouse
  state of its own frame. \<open>run_frames\<close> gives what the calls return; an exception ends
  the run, as it ends the loop.
\<close>

fun run_frames :: "(backend \<Rightarrow> 'a action) \<Rightarrow> backend list \<Rightarrow> ui \<Rightarrow> (error + 'a) list" where
  "run_frames widget [] u = []"
| "run_frames widget (be # bes) u =
     (case widget be u of
        (Inl e, u', es) \<Rightarrow> [Inl e]
      | (Inr v, u', es) \<Rightarrow> Inr v # run_frames widget bes u')"

subsection \<open>Auxiliary definitions\<close>

text \<open>
  Parts of \<^verbatim>\<open>Button\<close> named for the proofs: the state after lines 121-122, the padded
  rectangle of line 126, and lines 144-152 (draw, store the mouse state, return).
\<close>

definition Button_entry :: "string \<Rightarrow> ui \<Rightarrow> ui" where
  "Button_entry Label u =
     (if Buttons u Label = None
      then u\<lparr>Buttons := (Buttons u)(Label \<mapsto>
               \<lparr>active = True, mouse_down = True, prev_mouse_down = True\<rparr>)\<rparr>
      else u)"

definition Button_rect :: "Rect \<Rightarrow> Rect" where
  "Button_rect TextRect =
     \<lparr>XY = Nat2_add_int (XY TextRect) (- 10), WH = Nat2_add_int (WH TextRect) 20\<rparr>"

definition Button_render ::
  "backend \<Rightarrow> string \<Rightarrow> Nat2 \<Rightarrow> string \<Rightarrow> int \<Rightarrow> Rect \<Rightarrow> int \<Rightarrow> bool \<Rightarrow> bool \<Rightarrow> bool
     \<Rightarrow> (Rect \<times> bool \<times> bool) action" where
  "Button_render be Label Pos FontName ColorTextIdx ButtonRect ColorIdx clicked hovered down =
     seq (Rect_draw (XY ButtonRect) (WH ButtonRect) ColorIdx) (\<lambda>_.
     seq (Text be Label Pos FontName ColorTextIdx False) (\<lambda>_.
     seq (Buttons_get Label) (\<lambda>r.
     seq (Buttons_put Label (r\<lparr>prev_mouse_down := down\<rparr>)) (\<lambda>_.
     ret (ButtonRect, clicked, hovered)))))"

text \<open>
  Parts of \<^verbatim>\<open>Checkbox\<close> named for the proofs: the state after lines 206-207, lines
  212-222 (hover tint and toggle), lines 225-236 (fill, border, label, return), and
  what lines 215-222 do to the record of the label.
\<close>

definition Checkbox_entry :: "string \<Rightarrow> ui \<Rightarrow> ui" where
  "Checkbox_entry Label u =
     (if CheckboxStates u Label = None
      then u\<lparr>CheckboxStates := (CheckboxStates u)(Label \<mapsto>
               \<lparr>checked = False, cb_mouse_down = False\<rparr>)\<rparr>
      else u)"

definition Checkbox_toggle :: "backend \<Rightarrow> string \<Rightarrow> Nat2 \<Rightarrow> int \<Rightarrow> bool \<Rightarrow> unit action" where
  "Checkbox_toggle be Label Pos ColorInnerHoverIdx hovered =
     (if hovered then
             seq (CheckboxStates_get Label) (\<lambda>r.
             seq (if \<not> checked r
                  then Rect_draw (Nat2_add Pos \<lparr>X = 4, Y = 4\<rparr>)
                         \<lparr>X = 20 - 8, Y = 20 - 8\<rparr> ColorInnerHoverIdx
                  else ret ()) (\<lambda>_.
             seq (lift (IsClick be ''Left'')) (\<lambda>down.
             if down then
               seq (CheckboxStates_get Label) (\<lambda>r.
                 if \<not> cb_mouse_down r
                 then seq (CheckboxStates_put Label (r\<lparr>checked := \<not> checked r\<rparr>)) (\<lambda>_.
                      seq (CheckboxStates_get Label) (\<lambda>r.
                      CheckboxStates_put Label (r\<lparr>cb_mouse_down := True\<rparr>)))
                 else ret ())
             else
               seq (CheckboxStates_get Label) (\<lambda>r.
               CheckboxStates_put Label (r\<lparr>cb_mouse_down := False\<rparr>)))))
           else
             seq (CheckboxStates_get Label) (\<lambda>r.
             CheckboxStates_put Label (r\<lparr>cb_mouse_down := False\<rparr>)))"

definition Checkbox_draw ::
  "backend \<Rightarrow> string \<Rightarrow> Nat2 \<Rightarrow> string \<Rightarrow> int \<Rightarrow> int \<Rightarrow> int \<Rightarrow> bool \<Rightarrow> (bool \<times> bool) action" where
  "Checkbox_draw be Label Pos FontName ColorBorderIdx ColorInnerIdx ColorTextIdx hovered =
      seq (CheckboxStates_get Label) (\<lambda>r.
      seq (if checked r
           then Rect_draw (Nat2_add Pos \<lparr>X = 4, Y = 4\<rparr>)
                  \<lparr>X = 20 - 8, Y = 20 - 8\<rparr> ColorInnerIdx
           else ret ()) (\<lambda>_.
      seq (RectBorder Pos \<lparr>X = 20, Y = 20\<rparr> ColorBorderIdx 2) (\<lambda>_.
      seq (Text be Label (Nat2_add Pos \<lparr>X = 20 + 10, Y = 0\<rparr>) FontName ColorTextIdx False) (\<lambda>_.
      seq (CheckboxStates_get Label) (\<lambda>r.
      ret (checked r, hovered))))))"

definition Checkbox_rule :: "bool \<Rightarrow> bool \<Rightarrow> checkbox_rec \<Rightarrow> checkbox_rec" where
  "Checkbox_rule hovered down r =
     (if hovered then
        (if down then
           (if \<not> cb_mouse_down r then r\<lparr>checked := \<not> checked r, cb_mouse_down := True\<rparr> else r)
         else r\<lparr>cb_mouse_down := False\<rparr>)
      else r\<lparr>cb_mouse_down := False\<rparr>)"

text \<open>
  A concrete setting for the examples: a renderer that gives every non-empty string a
  surface of 8 units per character by 16 and fails on the empty string, a mouse
  sample, and the engine right after \<^verbatim>\<open>__init__\<close> with one font registered.
\<close>

definition ex_ttf :: "font \<Rightarrow> string \<Rightarrow> Vec4 \<Rightarrow> (int \<times> int) option" where
  "ex_ttf f s c = (if s = [] then None else Some (8 * int (length s), 16))"

definition ex_be :: "int \<Rightarrow> int \<Rightarrow> 32 word \<Rightarrow> backend" where
  "ex_be x y b = \<lparr>x_pos = x, y_pos = y, button_state = b, TTF_RenderUTF8_Blended = ex_ttf\<rparr>"

definition ex_ui :: ui where
  "ex_ui = UiManager_init\<lparr>Fonts := [(''Medium'', 1)]\<rparr>"

text \<open>
  The button of the example (\<^verbatim>\<open>helloworld.py\<close>, line 38, with the label \<^verbatim>\<open>OK\<close>): the
  handler switches the mode. \<open>ex_ui_pressed\<close> is the engine after a first call made
  while the left button is held down, \<open>ex_ui_released\<close> after a first call made with
  the button up; in both the record of the label exists.
\<close>

definition ex_Button :: "backend \<Rightarrow> (Rect \<times> bool \<times> bool) action" where
  "ex_Button be = Button be ''OK'' \<lparr>X = 100, Y = 100\<rparr> ''Medium'' SwitchMode 2 1 3"

definition ex_ui_pressed :: ui where
  "ex_ui_pressed = fst (snd (ex_Button (ex_be 100 100 1) ex_ui))"

definition ex_ui_released :: ui where
  "ex_ui_released = fst (snd (ex_Button (ex_be 100 100 0) ex_ui))"

text \<open>The checkbox of the example (\<^verbatim>\<open>helloworld.py\<close>, line 42).\<close>

definition ex_Checkbox :: "backend \<Rightarrow> (bool \<times> bool) action" where
  "ex_Checkbox be = Checkbox be ''Testing'' \<lparr>X = 100, Y = 160\<rparr> ''Medium'' 0 1 2 0"

section \<open>Basic facts\<close>

lemmas action_defs = ret_def raise_def lift_def emit_def modify_def seq_def call_def

lemma py_index_in_range:
  "0 \<le> i \<Longrightarrow> i < int (length xs) \<Longrightarrow> py_index xs i = Inr (xs ! nat i)"
  by (simp add: py_index_def Let_def)

lemma py_index_negative:
  "- int (length xs) \<le> i \<Longrightarrow> i < 0 \<Longrightarrow> py_index xs i = Inr (xs ! nat (int (length xs) + i))"
  by (simp add: py_index_def Let_def add.commute)

lemma py_index_out_of_range:
  "i < - int (length xs) \<or> int (length xs) \<le> i \<Longrightarrow> py_index xs i = Inl IndexError"
  by (auto simp: py_index_def Let_def)

lemma length_ColorPaletteMode: "length (ColorPaletteMode u) = length (ColorPalette u)"
  by (simp add: ColorPaletteMode_def)

lemma Text_ok:
  assumes "py_index (ColorPaletteMode u) ColorIdx = Inr Color"
    and "map_of (Fonts u) FontName = Some Font"
    and "TTF_RenderUTF8_Blended be Font Str Color = Some (w, h)"
  shows "Text be Str Pos FontName ColorIdx NoDraw u =
           (Inr (SDL_Rect (X Pos) (Y Pos) w h), u,
            if NoDraw then [] else [BlitSurface Str Font Color (SDL_Rect (X Pos) (Y Pos) w h)])"
proof -
  from assms(2) have "Fonts u \<noteq> []" by auto
  with assms show ?thesis
    by (simp add: Text_def action_defs Let_def)
qed

lemma Text_bad_index:
  assumes "py_index (ColorPaletteMode u) ColorIdx = Inl e"
  shows "Text be Str Pos FontName ColorIdx NoDraw u = (Inl e, u, [])"
  using assms by (simp add: Text_def action_defs)

lemma Rect_draw_bad_index:
  assumes "py_index (ColorPaletteMode u) ColorIdx = Inl e"
  shows "Rect_draw Pos Size ColorIdx u = (Inl e, u, [])"
  using assms by (simp add: Rect_draw_def action_defs Let_def)

lemma Rect_draw_ok:
  assumes "py_index (ColorPaletteMode u) ColorIdx = Inr Color"
  shows "Rect_draw Pos Size ColorIdx u = (Inr (), u, [FillRect (SDL_Rect (X Pos) (Y Pos) (X Size) (Y Size)) Color])"
  using assms by (simp add: Rect_draw_def action_defs Let_def)

text \<open>The outcomes of \<open>Text\<close>, \<open>Rect_draw\<close> and \<open>Button\<close>, case by case.\<close>

lemma IsClick_Left: "IsClick be ''Left'' = Inr (button_state be AND SDL_BUTTON SDL_BUTTON_LEFT \<noteq> 0)"
  by (simp add: IsClick_def)

lemma Text_cases:
  obtains (fails) e where "Text be Str Pos FontName ColorIdx NoDraw u = (Inl e, u, [])"
  | (renders) w h Font Color where
      "py_index (ColorPaletteMode u) ColorIdx = Inr Color"
      "Text be Str Pos FontName ColorIdx NoDraw u =
        (Inr (SDL_Rect (X Pos) (Y Pos) w h), u,
         if NoDraw then [] else [BlitSurface Str Font Color (SDL_Rect (X Pos) (Y Pos) w h)])"
proof (cases "py_index (ColorPaletteMode u) ColorIdx")
  case (Inl e)
  from Text_bad_index [OF this] fails show ?thesis by blast
next
  case (Inr Color)
  show ?thesis
  proof (cases "map_of (Fonts u) FontName")
    case None
    then have "\<exists>e. Text be Str Pos FontName ColorIdx NoDraw u = (Inl e, u, [])"
      using Inr by (simp add: Text_def action_defs)
    with fails show ?thesis by blast
  next
    case (Some Font)
    show ?thesis
    proof (cases "TTF_RenderUTF8_Blended be Font Str Color")
      case None
      then have "\<exists>e. Text be Str Pos FontName ColorIdx NoDraw u = (Inl e, u, [])"
        using Inr Some by (simp add: Text_def action_defs)
      with fails show ?thesis by blast
    next
      case (Some wh)
      obtain w h where "wh = (w, h)" by (cases wh)
      with Some have "TTF_RenderUTF8_Blended be Font Str Color = Some (w, h)" by simp
      from Text_ok [OF Inr \<open>map_of (Fonts u) FontName = Some Font\<close> this] Inr renders
      show ?thesis by blast
    qed
  qed
qed

lemma Rect_draw_cases:
  obtains (fails) "Rect_draw Pos Size ColorIdx u = (Inl IndexError, u, [])"
  | (draws) Color where "py_index (ColorPaletteMode u) ColorIdx = Inr Color"
      "Rect_draw Pos Size ColorIdx u = (Inr (), u, [FillRect (SDL_Rect (X Pos) (Y Pos) (X Size) (Y Size)) Color])"
proof (cases "py_index (ColorPaletteMode u) ColorIdx")
  case (Inl e)
  then have "e = IndexError"
    by (simp add: py_index_def Let_def split: if_splits)
  with Inl Rect_draw_bad_index [OF Inl] fails show ?thesis by blast
next
  case (Inr Color)
  from Rect_draw_ok [OF this] Inr draws show ?thesis by blast
qed

lemma Button_entry_Some:
  "Buttons (Button_entry Label u) Label =
     Some (case Buttons u Label of
             None \<Rightarrow> \<lparr>active = True, mouse_down = True, prev_mouse_down = True\<rparr>
           | Some r \<Rightarrow> r)"
  by (auto simp: Button_entry_def)

lemma Button_entry_seen: "Buttons u Label = Some r \<Longrightarrow> Button_entry Label u = u"
  by (simp add: Button_entry_def)

lemma seq_ret: "seq (ret v) g u = g v u"
  by (simp add: seq_def ret_def split: prod.splits)

lemma seq_lift_Inr: "seq (lift (Inr v)) g u = g v u"
  by (simp add: seq_def lift_def split: prod.splits)

lemma seq_result:
  "f u = (Inr v, u', es) \<Longrightarrow> seq f g u = (case g v u' of (r, u'', es') \<Rightarrow> (r, u'', es @ es'))"
  by (simp add: seq_def)

lemma seq_error: "f u = (Inl e, u', es) \<Longrightarrow> seq f g u = (Inl e, u', es)"
  by (simp add: seq_def)

lemma Button_unfold:
  "Button be Label Pos FontName OnClick ct ch cn u =
     (case Text be Label Pos FontName ct True (Button_entry Label u) of
        (Inl e, u1, es1) \<Rightarrow> (Inl e, u1, es1)
      | (Inr TextRect, u1, es1) \<Rightarrow>
          (let R = Button_rect TextRect; hov = RectIsHover be R;
               d = (button_state be AND SDL_BUTTON SDL_BUTTON_LEFT \<noteq> 0)
           in if hov \<and> d \<and> \<not> prev_mouse_down (the (Buttons u1 Label))
              then (case OnClick u1 of
                      (Inl e, u2, es) \<Rightarrow> (Inl e, u2, es1 @ [OnClickCall es])
                    | (Inr x, u2, es) \<Rightarrow>
                        (case Button_render be Label Pos FontName ct R ch True hov d u2 of
                           (res, u3, es3) \<Rightarrow> (res, u3, es1 @ OnClickCall es # es3)))
              else (case Button_render be Label Pos FontName ct R (if hov then ch else cn) False hov d u1 of
                      (res, u3, es3) \<Rightarrow> (res, u3, es1 @ es3))))"
proof -
  let ?u1 = "Button_entry Label u"
  let ?init = "\<lambda>u. if Buttons u Label = None
      then Buttons_put Label \<lparr>active = True, mouse_down = True, prev_mouse_down = True\<rparr> u
      else ret () u"
  have e: "?init u = (Inr (), ?u1, [])"
    by (simp add: Button_entry_def Buttons_put_def modify_def ret_def)
  note e' = seq_result [where f = ?init, OF e]
  obtain r where r: "Buttons ?u1 Label = Some r"
    by (simp add: Button_entry_Some)
  have get: "Buttons_get Label ?u1 = (Inr r, ?u1, [])"
    by (simp add: Buttons_get_def lift_def r)
  note get' = seq_result [where f = "Buttons_get Label", OF get]
  show ?thesis
  proof (cases rule: Text_cases [of be Label Pos FontName ct True ?u1])
    case (fails e')
    show ?thesis
      unfolding Button_def
      by (simp add: e' seq_error [where f = "Text be Label Pos FontName ct True", OF fails] fails)
  next
    case (renders w h Font Color)
    let ?R = "Button_rect (SDL_Rect (X Pos) (Y Pos) w h)"
    let ?hov = "RectIsHover be ?R"
    let ?d = "button_state be AND SDL_BUTTON SDL_BUTTON_LEFT \<noteq> 0"
    let ?CH = "if ?hov then
            (if ?d then
               seq (Buttons_get Label) (\<lambda>r.
                 if \<not> prev_mouse_down r
                 then seq (call OnClick) (\<lambda>_. ret (ch, True))
                 else ret (ch, False))
             else ret (ch, False))
          else ret (cn, False)"
    have t: "Text be Label Pos FontName ct True ?u1 = (Inr (SDL_Rect (X Pos) (Y Pos) w h), ?u1, [])"
      using renders(2) by simp
    let ?K = "\<lambda>(ColorIdx, clicked).
            Button_render be Label Pos FontName ct ?R ColorIdx clicked ?hov ?d"
    have step: "Button be Label Pos FontName OnClick ct ch cn u = seq ?CH ?K ?u1"
      unfolding Button_def Let_def Button_render_def
      by (simp add: e' seq_result [where f = "Text be Label Pos FontName ct True", OF t]
            IsClick_Left seq_lift_Inr Button_rect_def)
    show ?thesis
    proof (cases "?hov \<and> ?d \<and> \<not> prev_mouse_down r")
      case False
      then have "?CH ?u1 = (Inr (if ?hov then ch else cn, False), ?u1, [])"
        by (auto simp: get' ret_def)
      from seq_result [where f = ?CH and g = ?K, OF this]
      have k: "seq ?CH ?K ?u1 =
          (case ?K (if ?hov then ch else cn, False) ?u1 of (r, u'', es') \<Rightarrow> (r, u'', [] @ es'))" .
      show ?thesis
        apply (subst step)
        apply (subst k)
        using False apply (auto simp: t r Let_def)
        done
    next
      case True
      then have True': "?hov" "?d" "\<not> prev_mouse_down r" by simp_all
      obtain rc u2 es where o: "OnClick ?u1 = (rc, u2, es)"
        by (cases "OnClick ?u1")
      show ?thesis
      proof (cases rc)
        case (Inl e')
        have "?CH ?u1 = (Inl e', u2, [OnClickCall es])"
          using True' o Inl by (simp add: seq_def call_def ret_def get)
        from seq_error [where f = ?CH and g = ?K, OF this]
        have k: "seq ?CH ?K ?u1 = (Inl e', u2, [OnClickCall es])" .
        show ?thesis
          apply (subst step)
          apply (subst k)
          using True Inl o apply (simp add: t r Let_def)
          done
      next
        case (Inr x)
        have "?CH ?u1 = (Inr (ch, True), u2, [OnClickCall es])"
          using True' o Inr by (simp add: seq_def call_def ret_def get)
        from seq_result [where f = ?CH and g = ?K, OF this]
        have k: "seq ?CH ?K ?u1 =
            (case ?K (ch, True) u2 of (r, u'', es') \<Rightarrow> (r, u'', [OnClickCall es] @ es'))" .
        show ?thesis
          apply (subst step)
          apply (subst k)
          using True Inr o apply (simp add: t r Let_def)
          done
      qed
    qed
  qed
qed


lemma Button_render_cases:
  obtains (fails) e es where
      "Button_render be Label Pos FontName ct R ColorIdx clicked hov d u = (Inl e, u, es)"
      "\<forall>ev \<in> set es. \<forall>es'. ev \<noteq> OnClickCall es'"
  | (returns) r c1 c2 Font w h where
      "Buttons u Label = Some r"
      "py_index (ColorPaletteMode u) ColorIdx = Inr c1"
      "py_index (ColorPaletteMode u) ct = Inr c2"
      "Button_render be Label Pos FontName ct R ColorIdx clicked hov d u =
         (Inr (R, clicked, hov),
          u\<lparr>Buttons := (Buttons u)(Label \<mapsto> r\<lparr>prev_mouse_down := d\<rparr>)\<rparr>,
          [FillRect (SDL_Rect (X (XY R)) (Y (XY R)) (X (WH R)) (Y (WH R))) c1,
           BlitSurface Label Font c2 (SDL_Rect (X Pos) (Y Pos) w h)])"
proof (cases rule: Rect_draw_cases [of "XY R" "WH R" ColorIdx u])
  case fails': fails
  have "Button_render be Label Pos FontName ct R ColorIdx clicked hov d u = (Inl IndexError, u, [])"
    unfolding Button_render_def
    by (rule seq_error [where f = "Rect_draw (XY R) (WH R) ColorIdx", OF fails'])
  then show ?thesis using fails by simp
next
  case (draws c1)
  note d1 = seq_result [where f = "Rect_draw (XY R) (WH R) ColorIdx", OF draws(2)]
  show ?thesis
  proof (cases rule: Text_cases [of be Label Pos FontName ct False u])
    case fails': (fails e)
    have "Button_render be Label Pos FontName ct R ColorIdx clicked hov d u =
            (Inl e, u, [FillRect (SDL_Rect (X (XY R)) (Y (XY R)) (X (WH R)) (Y (WH R))) c1])"
      unfolding Button_render_def
      by (simp add: d1 seq_error [where f = "Text be Label Pos FontName ct False", OF fails'])
    then show ?thesis using fails by simp
  next
    case (renders w h Font c2)
    note d2 = seq_result [where f = "Text be Label Pos FontName ct False", OF renders(2)]
    show ?thesis
    proof (cases "Buttons u Label")
      case None
      then have g: "Buttons_get Label u = (Inl KeyError, u, [])"
        by (simp add: Buttons_get_def lift_def)
      have "Button_render be Label Pos FontName ct R ColorIdx clicked hov d u =
            (Inl KeyError, u, [FillRect (SDL_Rect (X (XY R)) (Y (XY R)) (X (WH R)) (Y (WH R))) c1,
               BlitSurface Label Font c2 (SDL_Rect (X Pos) (Y Pos) w h)])"
        unfolding Button_render_def
        by (simp add: d1 d2 seq_error [where f = "Buttons_get Label", OF g])
      then show ?thesis using fails by simp
    next
      case (Some r)
      then have g: "Buttons_get Label u = (Inr r, u, [])"
        by (simp add: Buttons_get_def lift_def)
      have "Button_render be Label Pos FontName ct R ColorIdx clicked hov d u =
         (Inr (R, clicked, hov),
          u\<lparr>Buttons := (Buttons u)(Label \<mapsto> r\<lparr>prev_mouse_down := d\<rparr>)\<rparr>,
          [FillRect (SDL_Rect (X (XY R)) (Y (XY R)) (X (WH R)) (Y (WH R))) c1,
           BlitSurface Label Font c2 (SDL_Rect (X Pos) (Y Pos) w h)])"
        unfolding Button_render_def
        by (simp add: seq_def draws(2) renders(2) g Buttons_put_def modify_def ret_def)
      with Some draws(1) renders(1) returns show ?thesis by blast
    qed
  qed
qed

lemma Button_cases:
  fixes be Label Pos FontName OnClick ct ch cn u
  defines "u1 \<equiv> Button_entry Label u"
  defines "d \<equiv> button_state be AND SDL_BUTTON SDL_BUTTON_LEFT \<noteq> 0"
  obtains (measure_fails) e where
      "Button be Label Pos FontName OnClick ct ch cn u = (Inl e, u1, [])"
  | (no_click) w h r R where
      "Buttons u1 Label = Some r"
      "R = Button_rect (SDL_Rect (X Pos) (Y Pos) w h)"
      "\<not> (RectIsHover be R \<and> d \<and> \<not> prev_mouse_down r)"
      "Button be Label Pos FontName OnClick ct ch cn u =
         Button_render be Label Pos FontName ct R (if RectIsHover be R then ch else cn)
           False (RectIsHover be R) d u1"
  | (handler_fails) w h r R e u2 es where
      "Buttons u1 Label = Some r"
      "R = Button_rect (SDL_Rect (X Pos) (Y Pos) w h)"
      "RectIsHover be R" "d" "\<not> prev_mouse_down r"
      "OnClick u1 = (Inl e, u2, es)"
      "Button be Label Pos FontName OnClick ct ch cn u = (Inl e, u2, [OnClickCall es])"
  | (click) w h r R u2 es res u3 es3 where
      "Buttons u1 Label = Some r"
      "R = Button_rect (SDL_Rect (X Pos) (Y Pos) w h)"
      "RectIsHover be R" "d" "\<not> prev_mouse_down r"
      "OnClick u1 = (Inr (), u2, es)"
      "Button_render be Label Pos FontName ct R ch True True True u2 = (res, u3, es3)"
      "Button be Label Pos FontName OnClick ct ch cn u = (res, u3, OnClickCall es # es3)"
proof -
  obtain r where r: "Buttons u1 Label = Some r"
    by (simp add: u1_def Button_entry_Some)
  show thesis
  proof (cases rule: Text_cases [of be Label Pos FontName ct True u1])
    case (fails e)
    then have "Button be Label Pos FontName OnClick ct ch cn u = (Inl e, u1, [])"
      by (simp add: Button_unfold u1_def [symmetric])
    then show thesis by (rule measure_fails)
  next
    case (renders w h Font Color)
    define R where "R = Button_rect (SDL_Rect (X Pos) (Y Pos) w h)"
    from renders(2) have t: "Text be Label Pos FontName ct True u1 =
        (Inr (SDL_Rect (X Pos) (Y Pos) w h), u1, [])" by simp
    show thesis
    proof (cases "RectIsHover be R \<and> d \<and> \<not> prev_mouse_down r")
      case False
      then have "Button be Label Pos FontName OnClick ct ch cn u =
         Button_render be Label Pos FontName ct R (if RectIsHover be R then ch else cn)
           False (RectIsHover be R) d u1"
        by (auto simp: Button_unfold u1_def [symmetric] t r Let_def R_def [symmetric] d_def [symmetric])
      from no_click [OF r R_def False this] show thesis .
    next
      case True
      then have T: "RectIsHover be R" "d" "\<not> prev_mouse_down r" by simp_all
      obtain rc u2 es where o: "OnClick u1 = (rc, u2, es)"
        by (cases "OnClick u1")
      show thesis
      proof (cases rc)
        case (Inl e)
        with T o have "Button be Label Pos FontName OnClick ct ch cn u = (Inl e, u2, [OnClickCall es])"
          by (simp add: Button_unfold u1_def [symmetric] t r Let_def R_def [symmetric] d_def [symmetric])
        from handler_fails [OF r R_def T o [unfolded Inl] this] show thesis .
      next
        case (Inr x)
        obtain res u3 es3 where b: "Button_render be Label Pos FontName ct R ch True True True u2 = (res, u3, es3)"
          by (cases "Button_render be Label Pos FontName ct R ch True True True u2")
        with T o Inr have "Button be Label Pos FontName OnClick ct ch cn u = (res, u3, OnClickCall es # es3)"
          by (simp add: Button_unfold u1_def [symmetric] t r Let_def R_def [symmetric] d_def [symmetric])
        moreover from o Inr have "OnClick u1 = (Inr (), u2, es)" by simp
        ultimately show thesis using click [OF r R_def T _ b] by blast
      qed
    qed
  qed
qed

section \<open>Colour resolution\<close>

text \<open>
  C4. With \<open>IsDarkMode\<close> true, an index \<open>idx\<close> in \<open>[0, len)\<close> resolves to
  \<open>ColorPalette[idx]\<close>; with \<open>IsDarkMode\<close> false it resolves to
  \<open>ColorPalette[len - 1 - idx]\<close>, the same palette reversed; \<^verbatim>\<open>Rect\<close> fills with
  that colour.
\<close>

theorem ColorPaletteMode_resolve:
  assumes "0 \<le> idx" and "idx < int (length (ColorPalette u))"
  shows "py_index (ColorPaletteMode u) idx =
           Inr (if IsDarkMode u then ColorPalette u ! nat idx
                else ColorPalette u ! (length (ColorPalette u) - 1 - nat idx)) \<and>
         Rect_draw Pos Size idx u =
           (Inr (), u,
            [FillRect (SDL_Rect (X Pos) (Y Pos) (X Size) (Y Size))
               (if IsDarkMode u then ColorPalette u ! nat idx
                else ColorPalette u ! (length (ColorPalette u) - 1 - nat idx))])"
proof -
  have n: "nat idx < length (ColorPalette u)"
    using assms by linarith
  have "py_index (ColorPaletteMode u) idx = Inr (ColorPaletteMode u ! nat idx)"
    using assms by (simp add: py_index_in_range length_ColorPaletteMode)
  moreover have "ColorPaletteMode u ! nat idx =
      (if IsDarkMode u then ColorPalette u ! nat idx
       else ColorPalette u ! (length (ColorPalette u) - 1 - nat idx))"
    using n by (simp add: ColorPaletteMode_def rev_nth)
  ultimately show ?thesis
    by (simp add: Rect_draw_def action_defs)
qed

theorem ColorPaletteMode_resolve_witness:
  "py_index (ColorPaletteMode UiManager_init) 1 = Inr (Vec4 0 0.78 0.376 1) \<and>
   py_index (ColorPaletteMode (UiManager_init\<lparr>IsDarkMode := False\<rparr>)) 1 =
     Inr (Vec4 0 0.459 0.224 1)"
  using ColorPaletteMode_resolve [of 1 UiManager_init]
    ColorPaletteMode_resolve [of 1 "UiManager_init\<lparr>IsDarkMode := False\<rparr>"]
  by (simp add: UiManager_init_def)

section \<open>Hit test\<close>

text \<open>
  C6. \<open>PointInsideRect\<close> is exactly the test \<open>r.X \<le> p.X \<le> r.X + r.W\<close> and
  \<open>r.Y \<le> p.Y \<le> r.Y + r.H\<close>, all four bounds inclusive. Every point on one of the
  four edges of a rectangle (of non-negative size, so that it has edges), corners
  included, is inside, and every point at least one unit beyond a bound in X or in Y
  is outside.
\<close>

theorem PointInsideRect_inclusive:
  "(PointInsideRect p (XY r) (WH r) \<longleftrightarrow>
      X (XY r) \<le> X p \<and> X p \<le> X (XY r) + X (WH r) \<and>
      Y (XY r) \<le> Y p \<and> Y p \<le> Y (XY r) + Y (WH r)) \<and>
   (0 \<le> X (WH r) \<and> 0 \<le> Y (WH r) \<and>
    (((X p = X (XY r) \<or> X p = X (XY r) + X (WH r)) \<and>
        Y (XY r) \<le> Y p \<and> Y p \<le> Y (XY r) + Y (WH r)) \<or>
     ((Y p = Y (XY r) \<or> Y p = Y (XY r) + Y (WH r)) \<and>
        X (XY r) \<le> X p \<and> X p \<le> X (XY r) + X (WH r)))
      \<longrightarrow> PointInsideRect p (XY r) (WH r)) \<and>
   (X p \<le> X (XY r) - 1 \<or> X (XY r) + X (WH r) + 1 \<le> X p \<or>
    Y p \<le> Y (XY r) - 1 \<or> Y (XY r) + Y (WH r) + 1 \<le> Y p
      \<longrightarrow> \<not> PointInsideRect p (XY r) (WH r))"
  unfolding PointInsideRect_def by auto

theorem PointInsideRect_inclusive_witness:
  "PointInsideRect \<lparr>X = 120, Y = 180\<rparr> \<lparr>X = 100, Y = 160\<rparr> \<lparr>X = 20, Y = 20\<rparr> \<and>
   \<not> PointInsideRect \<lparr>X = 121, Y = 170\<rparr> \<lparr>X = 100, Y = 160\<rparr> \<lparr>X = 20, Y = 20\<rparr>"
  using PointInsideRect_inclusive
          [where r = "\<lparr>XY = \<lparr>X = 100, Y = 160\<rparr>, WH = \<lparr>X = 20, Y = 20\<rparr>\<rparr>"
             and p = "\<lparr>X = 120, Y = 180\<rparr>"]
        PointInsideRect_inclusive
          [where r = "\<lparr>XY = \<lparr>X = 100, Y = 160\<rparr>, WH = \<lparr>X = 20, Y = 20\<rparr>\<rparr>"
             and p = "\<lparr>X = 121, Y = 170\<rparr>"]
  by simp

section \<open>Text\<close>

text \<open>
  C7. For the same string, position, font, colour index and engine state, \<open>Text\<close>
  with \<open>NoDraw\<close> returns what \<open>Text\<close> without it returns (the same rectangle, or the
  same exception); the \<open>NoDraw\<close> call issues no call to the surface and leaves the
  state as it was, and so does the drawing call for the state.
\<close>

theorem Text_NoDraw_same_rect:
  "fst (Text be Str Pos FontName ColorIdx True u) =
     fst (Text be Str Pos FontName ColorIdx False u) \<and>
   snd (Text be Str Pos FontName ColorIdx True u) = (u, []) \<and>
   fst (snd (Text be Str Pos FontName ColorIdx False u)) = u"
  by (simp add: Text_def action_defs Let_def split: sum.splits option.splits prod.splits)

section \<open>Wrapped text\<close>

lemma c_int_fits: "fits_c_int v \<Longrightarrow> c_int v = v"
  unfolding c_int_def by (simp add: sint_sbintrunc' signed_take_bit_int_eq_self)

lemma SDL_Rect_fits:
  "fits_c_int x \<Longrightarrow> fits_c_int y \<Longrightarrow> fits_c_int w \<Longrightarrow> fits_c_int h \<Longrightarrow>
     SDL_Rect x y w h = \<lparr>XY = \<lparr>X = x, Y = y\<rparr>, WH = \<lparr>X = w, Y = h\<rparr>\<rparr>"
  by (simp add: SDL_Rect_def c_int_fits)

lemma split_acc_nonempty: "split_acc sep cur s \<noteq> []"
  by (induction s arbitrary: cur) auto

lemma join_with_Cons: "ps \<noteq> [] \<Longrightarrow> join_with sep (p # ps) = p @ sep # join_with sep ps"
  by (cases ps) auto

lemma join_split_acc: "join_with sep (split_acc sep cur s) = cur @ s"
  by (induction s arbitrary: cur) (auto simp: join_with_Cons split_acc_nonempty)

lemma split_acc_no_sep:
  "sep \<notin> set cur \<Longrightarrow> p \<in> set (split_acc sep cur s) \<Longrightarrow> sep \<notin> set p"
proof (induction s arbitrary: cur)
  case Nil
  then show ?case by simp
next
  case (Cons c cs)
  show ?case
  proof (cases "c = sep")
    case True
    with Cons.prems have "p = cur \<or> p \<in> set (split_acc sep [] cs)" by simp
    then show ?thesis
    proof
      assume "p = cur"
      with Cons.prems(1) show ?thesis by simp
    next
      assume "p \<in> set (split_acc sep [] cs)"
      with Cons.IH [of "[]"] show ?thesis by simp
    qed
  next
    case False
    with Cons.prems have "p \<in> set (split_acc sep (cur @ [c]) cs)" by simp
    moreover from False Cons.prems(1) have "sep \<notin> set (cur @ [c])" by auto
    ultimately show ?thesis using Cons.IH by blast
  qed
qed

lemma split_newline_spec:
  "split_newline s \<noteq> [] \<and> (\<forall>p \<in> set (split_newline s). CHR 0x0A \<notin> set p) \<and>
   join_with (CHR 0x0A) (split_newline s) = s"
  using split_acc_no_sep [of "CHR 0x0A" "[]" _ s]
  by (auto simp: split_newline_def split_acc_nonempty join_split_acc)

lemma TextWrapped_loop_draws:
  assumes "py_index (ColorPaletteMode u) ColorIdx = Inr Color"
    and "map_of (Fonts u) FontName = Some Font"
    and "\<forall>(Idx, String) \<in> set xs.
           String \<noteq> [] \<longrightarrow> TTF_RenderUTF8_Blended be Font String Color \<noteq> None"
  shows "TextWrapped_loop be xs Pos FontName ColorIdx u =
           (Inr (), u,
            map (\<lambda>(Idx, String).
                   BlitSurface String Font Color
                     (case the (TTF_RenderUTF8_Blended be Font String Color) of
                        (w, h) \<Rightarrow> SDL_Rect (X Pos) (Y Pos + int Idx * 16) w h))
              (filter (\<lambda>(Idx, String). String \<noteq> []) xs))"
  using assms(3)
proof (induction xs)
  case Nil
  then show ?case by (simp add: ret_def)
next
  case (Cons a xs)
  obtain Idx String where a: "a = (Idx, String)" by (cases a)
  from Cons have IH: "TextWrapped_loop be xs Pos FontName ColorIdx u =
           (Inr (), u,
            map (\<lambda>(Idx, String).
                   BlitSurface String Font Color
                     (case the (TTF_RenderUTF8_Blended be Font String Color) of
                        (w, h) \<Rightarrow> SDL_Rect (X Pos) (Y Pos + int Idx * 16) w h))
              (filter (\<lambda>(Idx, String). String \<noteq> []) xs))"
    by simp
  show ?case
  proof (cases "String = []")
    case True
    then show ?thesis using IH a by simp
  next
    case False
    with Cons.prems a obtain w h
      where wh: "TTF_RenderUTF8_Blended be Font String Color = Some (w, h)"
      by fastforce
    show ?thesis
      using False a IH wh
        Text_ok [OF assms(1) assms(2) wh, of "Nat2_add Pos \<lparr>X = 0, Y = int Idx * 16\<rparr>" False]
      by (simp add: seq_def Nat2_add_def)
  qed
qed

lemma TextWrapped_draws:
  assumes "py_index (ColorPaletteMode u) ColorIdx = Inr Color"
    and "map_of (Fonts u) FontName = Some Font"
    and "\<forall>String \<in> set (split_newline Str).
           String \<noteq> [] \<longrightarrow> TTF_RenderUTF8_Blended be Font String Color \<noteq> None"
  shows "TextWrapped be Str Pos FontName ColorIdx u =
           (Inr (), u,
            map (\<lambda>(Idx, String).
                   BlitSurface String Font Color
                     (case the (TTF_RenderUTF8_Blended be Font String Color) of
                        (w, h) \<Rightarrow> SDL_Rect (X Pos) (Y Pos + int Idx * 16) w h))
              (filter (\<lambda>(Idx, String). String \<noteq> []) (enumerate 0 (split_newline Str))))"
proof -
  have "\<forall>(Idx, String) \<in> set (enumerate 0 (split_newline Str)).
          String \<noteq> [] \<longrightarrow> TTF_RenderUTF8_Blended be Font String Color \<noteq> None"
    using assms(3) by (auto simp: in_set_enumerate_eq)
  from TextWrapped_loop_draws [OF assms(1) assms(2) this]
  show ?thesis
    by (simp add: TextWrapped_def Let_def)
qed

lemma TextWrapped_draws_fits:
  assumes "py_index (ColorPaletteMode u) ColorIdx = Inr Color"
    and "map_of (Fonts u) FontName = Some Font"
    and "fits_c_int (X Pos)"
    and "\<forall>(Idx, String) \<in> set (enumerate 0 (split_newline Str)).
           String \<noteq> [] \<longrightarrow>
             fits_c_int (Y Pos + int Idx * 16) \<and>
             (\<exists>w h. TTF_RenderUTF8_Blended be Font String Color = Some (w, h) \<and>
                    fits_c_int w \<and> fits_c_int h)"
  shows "TextWrapped be Str Pos FontName ColorIdx u =
           (Inr (), u,
            map (\<lambda>(Idx, String).
                   BlitSurface String Font Color
                     \<lparr>XY = Nat2_add Pos \<lparr>X = 0, Y = int Idx * 16\<rparr>,
                      WH = (case the (TTF_RenderUTF8_Blended be Font String Color) of
                              (w, h) \<Rightarrow> \<lparr>X = w, Y = h\<rparr>)\<rparr>)
              (filter (\<lambda>(Idx, String). String \<noteq> []) (enumerate 0 (split_newline Str))))"
proof -
  have r: "\<forall>String \<in> set (split_newline Str).
           String \<noteq> [] \<longrightarrow> TTF_RenderUTF8_Blended be Font String Color \<noteq> None"
  proof (intro ballI impI)
    fix String assume m: "String \<in> set (split_newline Str)" and n: "String \<noteq> []"
    from m obtain i where "i < length (split_newline Str)" "split_newline Str ! i = String"
      by (auto simp: in_set_conv_nth)
    then have "(i, String) \<in> set (enumerate 0 (split_newline Str))"
      by (simp add: in_set_enumerate_eq)
    with assms(4) n show "TTF_RenderUTF8_Blended be Font String Color \<noteq> None"
      by fastforce
  qed
  have "map (\<lambda>(Idx, String).
                   BlitSurface String Font Color
                     (case the (TTF_RenderUTF8_Blended be Font String Color) of
                        (w, h) \<Rightarrow> SDL_Rect (X Pos) (Y Pos + int Idx * 16) w h))
              (filter (\<lambda>(Idx, String). String \<noteq> []) (enumerate 0 (split_newline Str))) =
        map (\<lambda>(Idx, String).
                   BlitSurface String Font Color
                     \<lparr>XY = Nat2_add Pos \<lparr>X = 0, Y = int Idx * 16\<rparr>,
                      WH = (case the (TTF_RenderUTF8_Blended be Font String Color) of
                              (w, h) \<Rightarrow> \<lparr>X = w, Y = h\<rparr>)\<rparr>)
              (filter (\<lambda>(Idx, String). String \<noteq> []) (enumerate 0 (split_newline Str)))"
  proof (rule map_cong [OF refl])
    fix a assume a: "a \<in> set (filter (\<lambda>(Idx, String). String \<noteq> []) (enumerate 0 (split_newline Str)))"
    obtain Idx String where p: "a = (Idx, String)" by (cases a)
    with a assms(4) obtain w h where
      f: "fits_c_int (Y Pos + int Idx * 16)" and
      t: "TTF_RenderUTF8_Blended be Font String Color = Some (w, h)" and
      wh: "fits_c_int w" "fits_c_int h"
      by fastforce
    show "(case a of (Idx, String) \<Rightarrow>
                   BlitSurface String Font Color
                     (case the (TTF_RenderUTF8_Blended be Font String Color) of
                        (w, h) \<Rightarrow> SDL_Rect (X Pos) (Y Pos + int Idx * 16) w h)) =
          (case a of (Idx, String) \<Rightarrow>
                   BlitSurface String Font Color
                     \<lparr>XY = Nat2_add Pos \<lparr>X = 0, Y = int Idx * 16\<rparr>,
                      WH = (case the (TTF_RenderUTF8_Blended be Font String Color) of
                              (w, h) \<Rightarrow> \<lparr>X = w, Y = h\<rparr>)\<rparr>)"
      using p t SDL_Rect_fits [OF assms(3) f wh] by (simp add: Nat2_add_def)
  qed
  with TextWrapped_draws [OF assms(1) assms(2) r, of Pos] show ?thesis
    by simp
qed


lemma split_newline_a_b:
  "split_newline [CHR ''a'', CHR 0x0A, CHR 0x0A, CHR ''b''] = [''a'', [], ''b'']"
  by (simp add: split_newline_def)

lemma enumerate_three: "enumerate 0 [a, b, c] = [(0, a), (Suc 0, b), (2, c)]"
  by (simp add: enumerate_simps numeral_2_eq_2)

text \<open>
  C8, as amended. \<open>TextWrapped\<close> splits its input on newline: the pieces are never
  none, hold no newline, and joined with newlines give the input back, which fixes
  them. When the colour index resolves, the font is registered and every non-empty
  piece renders, it returns after blitting exactly the non-empty pieces, in order, the
  piece with index \<open>Idx\<close> in the split (empty pieces counted) onto the
  \<^verbatim>\<open>SDL_Rect\<close> built from \<open>Pos + (0, Idx * 16)\<close> and the size of the rendered
  surface. When the coordinates and sizes fit a C \<^verbatim>\<open>int\<close> that rectangle is at
  \<open>Pos + (0, Idx * 16)\<close> itself. In particular the string \<^verbatim>\<open>"a\n\nb"\<close> then gives
  two blits, at vertical offsets 0 and 32.
\<close>

theorem TextWrapped_lines:
  assumes "py_index (ColorPaletteMode u) ColorIdx = Inr Color"
    and "map_of (Fonts u) FontName = Some Font"
  shows "(split_newline Str \<noteq> [] \<and>
          (\<forall>p \<in> set (split_newline Str). CHR 0x0A \<notin> set p) \<and>
          join_with (CHR 0x0A) (split_newline Str) = Str) \<and>
         ((\<forall>String \<in> set (split_newline Str).
             String \<noteq> [] \<longrightarrow> TTF_RenderUTF8_Blended be Font String Color \<noteq> None) \<longrightarrow>
          TextWrapped be Str Pos FontName ColorIdx u =
            (Inr (), u,
             map (\<lambda>(Idx, String).
                    BlitSurface String Font Color
                      (case the (TTF_RenderUTF8_Blended be Font String Color) of
                         (w, h) \<Rightarrow> SDL_Rect (X Pos) (Y Pos + int Idx * 16) w h))
               (filter (\<lambda>(Idx, String). String \<noteq> []) (enumerate 0 (split_newline Str))))) \<and>
         (fits_c_int (X Pos) \<and>
          (\<forall>(Idx, String) \<in> set (enumerate 0 (split_newline Str)).
             String \<noteq> [] \<longrightarrow>
               fits_c_int (Y Pos + int Idx * 16) \<and>
               (\<exists>w h. TTF_RenderUTF8_Blended be Font String Color = Some (w, h) \<and>
                      fits_c_int w \<and> fits_c_int h)) \<longrightarrow>
          TextWrapped be Str Pos FontName ColorIdx u =
            (Inr (), u,
             map (\<lambda>(Idx, String).
                    BlitSurface String Font Color
                      \<lparr>XY = Nat2_add Pos \<lparr>X = 0, Y = int Idx * 16\<rparr>,
                       WH = (case the (TTF_RenderUTF8_Blended be Font String Color) of
                               (w, h) \<Rightarrow> \<lparr>X = w, Y = h\<rparr>)\<rparr>)
               (filter (\<lambda>(Idx, String). String \<noteq> []) (enumerate 0 (split_newline Str))))) \<and>
         (TTF_RenderUTF8_Blended be Font ''a'' Color = Some (wa, ha) \<and>
          TTF_RenderUTF8_Blended be Font ''b'' Color = Some (wb, hb) \<and>
          fits_c_int (X Pos) \<and> fits_c_int (Y Pos) \<and> fits_c_int (Y Pos + 32) \<and>
          fits_c_int wa \<and> fits_c_int ha \<and> fits_c_int wb \<and> fits_c_int hb \<longrightarrow>
          TextWrapped be [CHR ''a'', CHR 0x0A, CHR 0x0A, CHR ''b''] Pos FontName ColorIdx u =
            (Inr (), u,
             [BlitSurface ''a'' Font Color
                \<lparr>XY = Nat2_add Pos \<lparr>X = 0, Y = 0\<rparr>, WH = \<lparr>X = wa, Y = ha\<rparr>\<rparr>,
              BlitSurface ''b'' Font Color
                \<lparr>XY = Nat2_add Pos \<lparr>X = 0, Y = 32\<rparr>, WH = \<lparr>X = wb, Y = hb\<rparr>\<rparr>]))"
proof -
  have A: "split_newline Str \<noteq> [] \<and>
          (\<forall>p \<in> set (split_newline Str). CHR 0x0A \<notin> set p) \<and>
          join_with (CHR 0x0A) (split_newline Str) = Str"
    by (rule split_newline_spec)
  have B: "(\<forall>String \<in> set (split_newline Str).
             String \<noteq> [] \<longrightarrow> TTF_RenderUTF8_Blended be Font String Color \<noteq> None) \<longrightarrow>
          TextWrapped be Str Pos FontName ColorIdx u =
            (Inr (), u,
             map (\<lambda>(Idx, String).
                    BlitSurface String Font Color
                      (case the (TTF_RenderUTF8_Blended be Font String Color) of
                         (w, h) \<Rightarrow> SDL_Rect (X Pos) (Y Pos + int Idx * 16) w h))
               (filter (\<lambda>(Idx, String). String \<noteq> []) (enumerate 0 (split_newline Str))))"
    using TextWrapped_draws [OF assms] by blast
  have C: "fits_c_int (X Pos) \<and>
          (\<forall>(Idx, String) \<in> set (enumerate 0 (split_newline Str)).
             String \<noteq> [] \<longrightarrow>
               fits_c_int (Y Pos + int Idx * 16) \<and>
               (\<exists>w h. TTF_RenderUTF8_Blended be Font String Color = Some (w, h) \<and>
                      fits_c_int w \<and> fits_c_int h)) \<longrightarrow>
          TextWrapped be Str Pos FontName ColorIdx u =
            (Inr (), u,
             map (\<lambda>(Idx, String).
                    BlitSurface String Font Color
                      \<lparr>XY = Nat2_add Pos \<lparr>X = 0, Y = int Idx * 16\<rparr>,
                       WH = (case the (TTF_RenderUTF8_Blended be Font String Color) of
                               (w, h) \<Rightarrow> \<lparr>X = w, Y = h\<rparr>)\<rparr>)
               (filter (\<lambda>(Idx, String). String \<noteq> []) (enumerate 0 (split_newline Str))))"
    using TextWrapped_draws_fits [OF assms] by blast
  have D: "TTF_RenderUTF8_Blended be Font ''a'' Color = Some (wa, ha) \<and>
          TTF_RenderUTF8_Blended be Font ''b'' Color = Some (wb, hb) \<and>
          fits_c_int (X Pos) \<and> fits_c_int (Y Pos) \<and> fits_c_int (Y Pos + 32) \<and>
          fits_c_int wa \<and> fits_c_int ha \<and> fits_c_int wb \<and> fits_c_int hb \<longrightarrow>
          TextWrapped be [CHR ''a'', CHR 0x0A, CHR 0x0A, CHR ''b''] Pos FontName ColorIdx u =
            (Inr (), u,
             [BlitSurface ''a'' Font Color
                \<lparr>XY = Nat2_add Pos \<lparr>X = 0, Y = 0\<rparr>, WH = \<lparr>X = wa, Y = ha\<rparr>\<rparr>,
              BlitSurface ''b'' Font Color
                \<lparr>XY = Nat2_add Pos \<lparr>X = 0, Y = 32\<rparr>, WH = \<lparr>X = wb, Y = hb\<rparr>\<rparr>])"
  proof
    assume r: "TTF_RenderUTF8_Blended be Font ''a'' Color = Some (wa, ha) \<and>
          TTF_RenderUTF8_Blended be Font ''b'' Color = Some (wb, hb) \<and>
          fits_c_int (X Pos) \<and> fits_c_int (Y Pos) \<and> fits_c_int (Y Pos + 32) \<and>
          fits_c_int wa \<and> fits_c_int ha \<and> fits_c_int wb \<and> fits_c_int hb"
    then have f: "fits_c_int (X Pos)" by simp
    have "\<forall>(Idx, String) \<in> set (enumerate 0 (split_newline [CHR ''a'', CHR 0x0A, CHR 0x0A, CHR ''b''])).
             String \<noteq> [] \<longrightarrow>
               fits_c_int (Y Pos + int Idx * 16) \<and>
               (\<exists>w h. TTF_RenderUTF8_Blended be Font String Color = Some (w, h) \<and>
                      fits_c_int w \<and> fits_c_int h)"
      using r by (simp add: split_newline_a_b enumerate_three)
    from TextWrapped_draws_fits [OF assms f this] r
    show "TextWrapped be [CHR ''a'', CHR 0x0A, CHR 0x0A, CHR ''b''] Pos FontName ColorIdx u =
            (Inr (), u,
             [BlitSurface ''a'' Font Color
                \<lparr>XY = Nat2_add Pos \<lparr>X = 0, Y = 0\<rparr>, WH = \<lparr>X = wa, Y = ha\<rparr>\<rparr>,
              BlitSurface ''b'' Font Color
                \<lparr>XY = Nat2_add Pos \<lparr>X = 0, Y = 32\<rparr>, WH = \<lparr>X = wb, Y = hb\<rparr>\<rparr>])"
      by (simp add: split_newline_a_b enumerate_three)
  qed
  from A B C D show ?thesis by blast
qed

text \<open>
  C8 as stated puts every line at \<open>Pos + (0, Idx * 16)\<close>. The destination of the blit
  is an \<^verbatim>\<open>SDL_Rect\<close> (lines 319-323), whose fields are C \<^verbatim>\<open>int\<close>s: with
  \<open>Pos = (0, 2147483632)\<close> the line \<^verbatim>\<open>b\<close> of \<^verbatim>\<open>"a\n\nb"\<close> is at
  \<open>Pos + (0, 32) = (0, 2147483664)\<close> in the claim and is blitted at
  \<open>(0, -2147483632)\<close>.
\<close>

theorem TextWrapped_lines_counterexample:
  "snd (snd (TextWrapped (ex_be 0 0 0) [CHR ''a'', CHR 0x0A, CHR 0x0A, CHR ''b'']
               \<lparr>X = 0, Y = 2147483632\<rparr> ''Medium'' 0 ex_ui)) =
     [BlitSurface ''a'' 1 (Vec4 0 0.922 0.451 1)
        \<lparr>XY = \<lparr>X = 0, Y = 2147483632\<rparr>, WH = \<lparr>X = 8, Y = 16\<rparr>\<rparr>,
      BlitSurface ''b'' 1 (Vec4 0 0.922 0.451 1)
        \<lparr>XY = \<lparr>X = 0, Y = - 2147483632\<rparr>, WH = \<lparr>X = 8, Y = 16\<rparr>\<rparr>] \<and>
   Nat2_add \<lparr>X = 0, Y = 2147483632\<rparr> \<lparr>X = 0, Y = 32\<rparr> = \<lparr>X = 0, Y = 2147483664\<rparr>"
  by code_simp

theorem TextWrapped_lines_witness:
  "TextWrapped (ex_be 0 0 0) [CHR ''a'', CHR 0x0A, CHR 0x0A, CHR ''b'']
     \<lparr>X = 600, Y = 10\<rparr> ''Medium'' 0 ex_ui =
     (Inr (), ex_ui,
      [BlitSurface ''a'' 1 (Vec4 0 0.922 0.451 1)
         \<lparr>XY = \<lparr>X = 600, Y = 10\<rparr>, WH = \<lparr>X = 8, Y = 16\<rparr>\<rparr>,
       BlitSurface ''b'' 1 (Vec4 0 0.922 0.451 1)
         \<lparr>XY = \<lparr>X = 600, Y = 42\<rparr>, WH = \<lparr>X = 8, Y = 16\<rparr>\<rparr>]) \<and>
   join_with (CHR 0x0A) (split_newline [CHR ''a'', CHR 0x0A, CHR 0x0A, CHR ''b'']) =
     [CHR ''a'', CHR 0x0A, CHR 0x0A, CHR ''b'']"
proof -
  have c: "py_index (ColorPaletteMode ex_ui) 0 = Inr (Vec4 0 0.922 0.451 1)"
    by (simp add: py_index_def ColorPaletteMode_def ex_ui_def UiManager_init_def)
  have f: "map_of (Fonts ex_ui) ''Medium'' = Some 1"
    by (simp add: ex_ui_def UiManager_init_def)
  have r: "TTF_RenderUTF8_Blended (ex_be 0 0 0) 1 ''a'' (Vec4 0 0.922 0.451 1) = Some (8, 16) \<and>
           TTF_RenderUTF8_Blended (ex_be 0 0 0) 1 ''b'' (Vec4 0 0.922 0.451 1) = Some (8, 16) \<and>
           fits_c_int (X \<lparr>X = 600, Y = 10\<rparr>) \<and> fits_c_int (Y \<lparr>X = 600, Y = 10\<rparr>) \<and>
           fits_c_int (Y \<lparr>X = 600, Y = 10\<rparr> + 32) \<and>
           fits_c_int 8 \<and> fits_c_int 16 \<and> fits_c_int 8 \<and> fits_c_int 16"
    by (simp add: ex_be_def ex_ttf_def)
  note T = TextWrapped_lines [OF c f, where be = "ex_be 0 0 0" and wa = 8 and ha = 16
        and wb = 8 and hb = 16 and Pos = "\<lparr>X = 600, Y = 10\<rparr>"
        and Str = "[CHR ''a'', CHR 0x0A, CHR 0x0A, CHR ''b'']"]
  from T r have "TextWrapped (ex_be 0 0 0) [CHR ''a'', CHR 0x0A, CHR 0x0A, CHR ''b'']
          \<lparr>X = 600, Y = 10\<rparr> ''Medium'' 0 ex_ui =
        (Inr (), ex_ui,
         [BlitSurface ''a'' 1 (Vec4 0 0.922 0.451 1)
            \<lparr>XY = Nat2_add \<lparr>X = 600, Y = 10\<rparr> \<lparr>X = 0, Y = 0\<rparr>, WH = \<lparr>X = 8, Y = 16\<rparr>\<rparr>,
          BlitSurface ''b'' 1 (Vec4 0 0.922 0.451 1)
            \<lparr>XY = Nat2_add \<lparr>X = 600, Y = 10\<rparr> \<lparr>X = 0, Y = 32\<rparr>, WH = \<lparr>X = 8, Y = 16\<rparr>\<rparr>])"
    by blast
  then have A: "TextWrapped (ex_be 0 0 0) [CHR ''a'', CHR 0x0A, CHR 0x0A, CHR ''b'']
     \<lparr>X = 600, Y = 10\<rparr> ''Medium'' 0 ex_ui =
     (Inr (), ex_ui,
      [BlitSurface ''a'' 1 (Vec4 0 0.922 0.451 1)
         \<lparr>XY = \<lparr>X = 600, Y = 10\<rparr>, WH = \<lparr>X = 8, Y = 16\<rparr>\<rparr>,
       BlitSurface ''b'' 1 (Vec4 0 0.922 0.451 1)
         \<lparr>XY = \<lparr>X = 600, Y = 42\<rparr>, WH = \<lparr>X = 8, Y = 16\<rparr>\<rparr>])"
    by (simp add: Nat2_add_def)
  from T have "join_with (CHR 0x0A) (split_newline [CHR ''a'', CHR 0x0A, CHR 0x0A, CHR ''b'']) =
     [CHR ''a'', CHR 0x0A, CHR 0x0A, CHR ''b'']"
    by blast
  with A show ?thesis by blast
qed

section \<open>Button\<close>

lemma Button_returns:
  assumes "Button be Label Pos FontName OnClick ct ch cn u = (Inr (R, c, h), u', evs)"
    and "IsClick be ''Left'' = Inr down"
  shows "\<exists>r r'. Buttons (Button_entry Label u) Label = Some r \<and>
           c = (h \<and> down \<and> \<not> prev_mouse_down r) \<and>
           h = RectIsHover be R \<and>
           Buttons u' Label = Some r' \<and> prev_mouse_down r' = down"
proof -
  have d: "down = (button_state be AND SDL_BUTTON SDL_BUTTON_LEFT \<noteq> 0)"
    using assms(2) by (simp add: IsClick_Left)
  show ?thesis
  proof (cases rule: Button_cases [of be Label Pos FontName OnClick ct ch cn u])
    case (measure_fails e)
    with assms(1) show ?thesis by simp
  next
    case (no_click w h' r R')
    show ?thesis
    proof (cases rule: Button_render_cases [of be Label Pos FontName ct R'
          "if RectIsHover be R' then ch else cn" False "RectIsHover be R'"
          "button_state be AND SDL_BUTTON SDL_BUTTON_LEFT \<noteq> 0" "Button_entry Label u"])
      case (fails e es)
      with no_click(4) assms(1) show ?thesis by auto
    next
      case (returns r1 c1 c2 Font w1 h1)
      with no_click assms(1) d show ?thesis by auto
    qed
  next
    case (handler_fails w h r R e u2 es)
    with assms(1) show ?thesis by simp
  next
    case (click w h' r R' u2 es res u3 es3)
    show ?thesis
    proof (cases rule: Button_render_cases [of be Label Pos FontName ct R' ch True True True u2])
      case (fails e es')
      with click(7,8) assms(1) show ?thesis by auto
    next
      case (returns r1 c1 c2 Font w1 h1)
      with click assms(1) d show ?thesis by auto
    qed
  qed
qed

lemma run_frames_Cons_Inr:
  assumes "run_frames W (be # bes) u = Inr v # rs"
  shows "\<exists>u' es. W be u = (Inr v, u', es) \<and> run_frames W bes u' = rs"
  using assms by (auto split: prod.splits sum.splits)

text \<open>
  C1 (as amended). A \<open>Button\<close> call that returns, for a label whose record exists,
  returns \<open>clicked\<close> exactly when the button is hovered, the left button is down and
  the stored \<open>prev_mouse_down\<close> is false, and it leaves \<open>prev_mouse_down\<close> equal to
  the sampled mouse state. So for a label whose record exists with \<open>prev_mouse_down\<close>
  false, four successive calls that are all hovered, with the samples down, down, up,
  down, return clicked = true, false, false, true.
\<close>

theorem Button_click_edge:
  "(Button be Label Pos FontName OnClick ct ch cn u = (Inr (R, c, h), u', evs) \<and>
    Buttons u Label = Some r \<and> IsClick be ''Left'' = Inr down \<longrightarrow>
      c = (h \<and> down \<and> \<not> prev_mouse_down r) \<and>
      (\<exists>r'. Buttons u' Label = Some r' \<and> prev_mouse_down r' = down)) \<and>
   (Buttons u0 Label = Some r0 \<and> \<not> prev_mouse_down r0 \<and>
    run_frames (\<lambda>be. Button be Label Pos FontName OnClick ct ch cn) [be1, be2, be3, be4] u0 =
      [Inr (R1, c1, True), Inr (R2, c2, True), Inr (R3, c3, True), Inr (R4, c4, True)] \<and>
    IsClick be1 ''Left'' = Inr True \<and> IsClick be2 ''Left'' = Inr True \<and>
    IsClick be3 ''Left'' = Inr False \<and> IsClick be4 ''Left'' = Inr True \<longrightarrow>
      c1 \<and> \<not> c2 \<and> \<not> c3 \<and> c4)"
proof (rule conjI; rule impI)
  assume a: "Button be Label Pos FontName OnClick ct ch cn u = (Inr (R, c, h), u', evs) \<and>
    Buttons u Label = Some r \<and> IsClick be ''Left'' = Inr down"
  from Button_returns [of be Label Pos FontName OnClick ct ch cn u R c h u' evs down] a
  show "c = (h \<and> down \<and> \<not> prev_mouse_down r) \<and>
      (\<exists>r'. Buttons u' Label = Some r' \<and> prev_mouse_down r' = down)"
    by (auto simp: Button_entry_seen)
next
  let ?W = "\<lambda>be. Button be Label Pos FontName OnClick ct ch cn"
  assume a: "Buttons u0 Label = Some r0 \<and> \<not> prev_mouse_down r0 \<and>
    run_frames ?W [be1, be2, be3, be4] u0 =
      [Inr (R1, c1, True), Inr (R2, c2, True), Inr (R3, c3, True), Inr (R4, c4, True)] \<and>
    IsClick be1 ''Left'' = Inr True \<and> IsClick be2 ''Left'' = Inr True \<and>
    IsClick be3 ''Left'' = Inr False \<and> IsClick be4 ''Left'' = Inr True"
  then have r: "run_frames ?W [be1, be2, be3, be4] u0 =
      [Inr (R1, c1, True), Inr (R2, c2, True), Inr (R3, c3, True), Inr (R4, c4, True)]"
    by simp
  from run_frames_Cons_Inr [OF r] obtain u1 e1 where
    b1: "?W be1 u0 = (Inr (R1, c1, True), u1, e1)" and
    r1: "run_frames ?W [be2, be3, be4] u1 = [Inr (R2, c2, True), Inr (R3, c3, True), Inr (R4, c4, True)]"
    by blast
  from run_frames_Cons_Inr [OF r1] obtain u2 e2 where
    b2: "?W be2 u1 = (Inr (R2, c2, True), u2, e2)" and
    r2: "run_frames ?W [be3, be4] u2 = [Inr (R3, c3, True), Inr (R4, c4, True)]"
    by blast
  from run_frames_Cons_Inr [OF r2] obtain u3 e3 where
    b3: "?W be3 u2 = (Inr (R3, c3, True), u3, e3)" and
    r3: "run_frames ?W [be4] u3 = [Inr (R4, c4, True)]"
    by blast
  from run_frames_Cons_Inr [OF r3] obtain u4 e4 where
    b4: "?W be4 u3 = (Inr (R4, c4, True), u4, e4)"
    by blast
  from a have k: "IsClick be1 ''Left'' = Inr True" "IsClick be2 ''Left'' = Inr True"
    "IsClick be3 ''Left'' = Inr False" "IsClick be4 ''Left'' = Inr True"
    and s0: "Buttons u0 Label = Some r0" "\<not> prev_mouse_down r0" by simp_all
  from Button_returns [OF b1 k(1)] s0 obtain p1 where
    "c1" and p1: "Buttons u1 Label = Some p1" "prev_mouse_down p1"
    by (auto simp: Button_entry_seen)
  from Button_returns [OF b2 k(2)] p1 obtain p2 where
    "\<not> c2" and p2: "Buttons u2 Label = Some p2" "prev_mouse_down p2"
    by (auto simp: Button_entry_seen)
  from Button_returns [OF b3 k(3)] p2 obtain p3 where
    "\<not> c3" and p3: "Buttons u3 Label = Some p3" "\<not> prev_mouse_down p3"
    by (auto simp: Button_entry_seen)
  from Button_returns [OF b4 k(4)] p3 have "c4"
    by (auto simp: Button_entry_seen)
  with \<open>c1\<close> \<open>\<not> c2\<close> \<open>\<not> c3\<close> show "c1 \<and> \<not> c2 \<and> \<not> c3 \<and> c4" by simp
qed

lemma ex_pressed_rec: "Buttons ex_ui_pressed ''OK'' = Some \<lparr>active = True, mouse_down = True, prev_mouse_down = True\<rparr>"
  by code_simp

lemma ex_released_rec: "Buttons ex_ui_released ''OK'' = Some \<lparr>active = True, mouse_down = True, prev_mouse_down = False\<rparr>"
  by code_simp

lemma ex_IsClick: "IsClick (ex_be 100 100 1) ''Left'' = Inr True" "IsClick (ex_be 100 100 0) ''Left'' = Inr False"
  by code_simp+

text \<open>
  C1 as stated asks only that the record exists. After a first call made with the
  button held down the record exists with \<open>prev_mouse_down\<close> true, and the samples
  down, down, up, down on the hovered button then give clicked = false, false, false,
  true.
\<close>

theorem Button_click_edge_counterexample:
  "Buttons ex_ui_pressed ''OK'' =
     Some \<lparr>active = True, mouse_down = True, prev_mouse_down = True\<rparr> \<and>
   IsClick (ex_be 100 100 1) ''Left'' = Inr True \<and>
   IsClick (ex_be 100 100 0) ''Left'' = Inr False \<and>
   run_frames ex_Button
     [ex_be 100 100 1, ex_be 100 100 1, ex_be 100 100 0, ex_be 100 100 1] ex_ui_pressed =
     [Inr (\<lparr>XY = \<lparr>X = 90, Y = 90\<rparr>, WH = \<lparr>X = 36, Y = 36\<rparr>\<rparr>, False, True),
      Inr (\<lparr>XY = \<lparr>X = 90, Y = 90\<rparr>, WH = \<lparr>X = 36, Y = 36\<rparr>\<rparr>, False, True),
      Inr (\<lparr>XY = \<lparr>X = 90, Y = 90\<rparr>, WH = \<lparr>X = 36, Y = 36\<rparr>\<rparr>, False, True),
      Inr (\<lparr>XY = \<lparr>X = 90, Y = 90\<rparr>, WH = \<lparr>X = 36, Y = 36\<rparr>\<rparr>, True, True)]"
  by code_simp

lemma ex_released_run:
  "run_frames ex_Button
     [ex_be 100 100 1, ex_be 100 100 1, ex_be 100 100 0, ex_be 100 100 1] ex_ui_released =
     [Inr (\<lparr>XY = \<lparr>X = 90, Y = 90\<rparr>, WH = \<lparr>X = 36, Y = 36\<rparr>\<rparr>, True, True),
      Inr (\<lparr>XY = \<lparr>X = 90, Y = 90\<rparr>, WH = \<lparr>X = 36, Y = 36\<rparr>\<rparr>, False, True),
      Inr (\<lparr>XY = \<lparr>X = 90, Y = 90\<rparr>, WH = \<lparr>X = 36, Y = 36\<rparr>\<rparr>, False, True),
      Inr (\<lparr>XY = \<lparr>X = 90, Y = 90\<rparr>, WH = \<lparr>X = 36, Y = 36\<rparr>\<rparr>, True, True)]"
  by code_simp


lemma ex_released_call:
  "fst (ex_Button (ex_be 100 100 1) ex_ui_released) =
     Inr (\<lparr>XY = \<lparr>X = 90, Y = 90\<rparr>, WH = \<lparr>X = 36, Y = 36\<rparr>\<rparr>, True, True)"
  by code_simp

theorem Button_click_edge_witness:
  "(ex_Button (ex_be 100 100 1) ex_ui_released =
      (Inr (\<lparr>XY = \<lparr>X = 90, Y = 90\<rparr>, WH = \<lparr>X = 36, Y = 36\<rparr>\<rparr>, True, True),
       fst (snd (ex_Button (ex_be 100 100 1) ex_ui_released)),
       snd (snd (ex_Button (ex_be 100 100 1) ex_ui_released))) \<and>
    Buttons ex_ui_released ''OK'' =
      Some \<lparr>active = True, mouse_down = True, prev_mouse_down = False\<rparr> \<and>
    IsClick (ex_be 100 100 1) ''Left'' = Inr True \<and>
    (\<exists>r'. Buttons (fst (snd (ex_Button (ex_be 100 100 1) ex_ui_released))) ''OK'' = Some r' \<and>
          prev_mouse_down r' = True)) \<and>
   (run_frames ex_Button
      [ex_be 100 100 1, ex_be 100 100 1, ex_be 100 100 0, ex_be 100 100 1] ex_ui_released =
      [Inr (\<lparr>XY = \<lparr>X = 90, Y = 90\<rparr>, WH = \<lparr>X = 36, Y = 36\<rparr>\<rparr>, True, True),
       Inr (\<lparr>XY = \<lparr>X = 90, Y = 90\<rparr>, WH = \<lparr>X = 36, Y = 36\<rparr>\<rparr>, False, True),
       Inr (\<lparr>XY = \<lparr>X = 90, Y = 90\<rparr>, WH = \<lparr>X = 36, Y = 36\<rparr>\<rparr>, False, True),
       Inr (\<lparr>XY = \<lparr>X = 90, Y = 90\<rparr>, WH = \<lparr>X = 36, Y = 36\<rparr>\<rparr>, True, True)] \<and>
    IsClick (ex_be 100 100 0) ''Left'' = Inr False \<and>
    (True \<and> \<not> False \<and> \<not> False \<and> True))"
proof -
  let ?R = "\<lparr>XY = \<lparr>X = 90, Y = 90\<rparr>, WH = \<lparr>X = 36, Y = 36\<rparr>\<rparr>"
  let ?call = "ex_Button (ex_be 100 100 1) ex_ui_released"
  let ?rec = "\<lparr>active = True, mouse_down = True, prev_mouse_down = False\<rparr>"
  have c: "?call = (Inr (?R, True, True), fst (snd ?call), snd (snd ?call))"
    by (rule prod_eqI) (simp_all add: ex_released_call)
  note T = Button_click_edge [where be = "ex_be 100 100 1" and Label = "''OK''"
      and Pos = "\<lparr>X = 100, Y = 100\<rparr>" and FontName = "''Medium''" and OnClick = SwitchMode
      and ct = 2 and ch = 1 and cn = 3 and u = ex_ui_released and R = ?R and c = True
      and h = True and u' = "fst (snd ?call)" and evs = "snd (snd ?call)"
      and r = ?rec and down = True
      and ?u0.0 = ex_ui_released and ?r0.0 = ?rec
      and ?be1.0 = "ex_be 100 100 1" and ?be2.0 = "ex_be 100 100 1"
      and ?be3.0 = "ex_be 100 100 0" and ?be4.0 = "ex_be 100 100 1"
      and ?R1.0 = ?R and ?R2.0 = ?R and ?R3.0 = ?R and ?R4.0 = ?R
      and ?c1.0 = True and ?c2.0 = False and ?c3.0 = False and ?c4.0 = True,
      folded ex_Button_def]
  have p: "\<not> prev_mouse_down ?rec" by simp
  from T c ex_released_rec ex_IsClick(1)
  have A: "\<exists>r'. Buttons (fst (snd ?call)) ''OK'' = Some r' \<and> prev_mouse_down r' = True"
    by blast
  from T ex_released_rec p ex_released_run ex_IsClick
  have B: "True \<and> \<not> False \<and> \<not> False \<and> True"
    by blast
  from A B c ex_released_rec ex_IsClick ex_released_run show ?thesis
    by blast
qed

lemma Button_events:
  assumes "Button be Label Pos FontName OnClick ct ch cn u = (res, u', evs)"
    and "IsClick be ''Left'' = Inr down"
  shows "\<exists>r. Buttons (Button_entry Label u) Label = Some r \<and>
           ((\<exists>es ds. evs = OnClickCall es # ds \<and> (\<forall>ev \<in> set ds. \<forall>es'. ev \<noteq> OnClickCall es') \<and>
                down \<and> \<not> prev_mouse_down r) \<or>
            ((\<forall>ev \<in> set evs. \<forall>es'. ev \<noteq> OnClickCall es') \<and>
             (\<forall>R h. res \<noteq> Inr (R, True, h)) \<and>
             u' = (case res of
                     Inl e \<Rightarrow> Button_entry Label u
                   | Inr v \<Rightarrow> (Button_entry Label u)
                       \<lparr>Buttons := (Buttons (Button_entry Label u))
                          (Label \<mapsto> r\<lparr>prev_mouse_down := down\<rparr>)\<rparr>)))"
proof -
  have d: "down = (button_state be AND SDL_BUTTON SDL_BUTTON_LEFT \<noteq> 0)"
    using assms(2) by (simp add: IsClick_Left)
  show ?thesis
  proof (cases rule: Button_cases [of be Label Pos FontName OnClick ct ch cn u])
    case (measure_fails e)
    with assms(1) show ?thesis by (auto simp: Button_entry_Some)
  next
    case (no_click w h' r R')
    show ?thesis
    proof (cases rule: Button_render_cases [of be Label Pos FontName ct R'
          "if RectIsHover be R' then ch else cn" False "RectIsHover be R'"
          "button_state be AND SDL_BUTTON SDL_BUTTON_LEFT \<noteq> 0" "Button_entry Label u"])
      case (fails e es)
      with no_click assms(1) show ?thesis by auto
    next
      case (returns r1 c1 c2 Font w1 h1)
      with no_click assms(1) d show ?thesis by auto
    qed
  next
    case (handler_fails w h r R e u2 es)
    with assms(1) d show ?thesis by auto
  next
    case (click w h' r R' u2 es res' u3 es3)
    show ?thesis
    proof (cases rule: Button_render_cases [of be Label Pos FontName ct R' ch True True True u2])
      case (fails e es')
      with click assms(1) d show ?thesis by auto
    next
      case (returns r1 c1 c2 Font w1 h1)
      with click assms(1) d show ?thesis by auto
    qed
  qed
qed

lemma run_frames_click:
  assumes "run_frames (\<lambda>be. Button be Label Pos FontName OnClick ct ch cn) bes u = rs"
    and "k < length rs" and "rs ! k = Inr (R, True, h)"
    and "Buttons (Button_entry Label u) Label = Some r"
  shows "h \<and> IsClick (bes ! k) ''Left'' = Inr True \<and>
         (if k = 0 then \<not> prev_mouse_down r else IsClick (bes ! (k - 1)) ''Left'' = Inr False)"
  using assms
proof (induction bes arbitrary: u rs k r)
  case Nil
  then show ?case by simp
next
  case (Cons be bes)
  let ?W = "\<lambda>be. Button be Label Pos FontName OnClick ct ch cn"
  obtain res u' es where b: "?W be u = (res, u', es)"
    by (cases "?W be u")
  obtain down where dn: "IsClick be ''Left'' = Inr down"
    by (simp add: IsClick_Left)
  show ?case
  proof (cases res)
    case (Inl e)
    with b Cons.prems show ?thesis by auto
  next
    case (Inr v)
    obtain R0 c0 h0 where v: "v = (R0, c0, h0)" by (cases v)
    from b Inr v Cons.prems(1) have rs: "rs = Inr (R0, c0, h0) # run_frames ?W bes u'"
      by auto
    from Button_returns [OF b [unfolded Inr v] dn] Cons.prems(4) obtain r' where
      c0: "c0 = (h0 \<and> down \<and> \<not> prev_mouse_down r)" and
      r': "Buttons u' Label = Some r'" "prev_mouse_down r' = down"
      by auto
    show ?thesis
    proof (cases k)
      case 0
      with rs Cons.prems(3) c0 dn show ?thesis by auto
    next
      case (Suc k')
      with rs Cons.prems have k': "k' < length (run_frames ?W bes u')"
        "run_frames ?W bes u' ! k' = Inr (R, True, h)" by auto
      have e: "Buttons (Button_entry Label u') Label = Some r'"
        using r' by (simp add: Button_entry_seen)
      from Cons.IH [OF refl k' e] Suc r' dn show ?thesis
        by (cases k') auto
    qed
  qed
qed

text \<open>
  C2. On the first \<open>Button\<close> call for an unseen label the record is created with
  \<open>prev_mouse_down\<close> true: whatever the mouse does, the call does not return
  \<open>clicked\<close>, does not call the handler, and leaves the record with
  \<open>prev_mouse_down\<close> true if it raises and equal to the sampled mouse state if it
  returns. In a run of successive calls that starts with the label unseen, a call
  returns \<open>clicked\<close> only if it is not the first, the call before it sampled the
  button up, and it samples the button down while hovered.
\<close>

theorem Button_first_call_guard:
  "(Buttons u Label = None \<and>
    Button be Label Pos FontName OnClick ct ch cn u = (res, u', evs) \<and>
    IsClick be ''Left'' = Inr down \<longrightarrow>
      (\<forall>R h. res \<noteq> Inr (R, True, h)) \<and>
      (\<forall>ev \<in> set evs. \<forall>es. ev \<noteq> OnClickCall es) \<and>
      Buttons u' Label =
        Some \<lparr>active = True, mouse_down = True,
              prev_mouse_down = (case res of Inl e \<Rightarrow> True | Inr v \<Rightarrow> down)\<rparr>) \<and>
   (Buttons u0 Label = None \<and>
    run_frames (\<lambda>be. Button be Label Pos FontName OnClick ct ch cn) bes u0 = rs \<and>
    k < length rs \<and> rs ! k = Inr (Rk, True, hk) \<longrightarrow>
      0 < k \<and> IsClick (bes ! (k - 1)) ''Left'' = Inr False \<and>
      IsClick (bes ! k) ''Left'' = Inr True \<and> hk)"
proof (rule conjI; rule impI)
  assume a: "Buttons u Label = None \<and>
    Button be Label Pos FontName OnClick ct ch cn u = (res, u', evs) \<and>
    IsClick be ''Left'' = Inr down"
  then have e: "Buttons (Button_entry Label u) Label =
      Some \<lparr>active = True, mouse_down = True, prev_mouse_down = True\<rparr>"
    by (simp add: Button_entry_Some)
  from a Button_events [of be Label Pos FontName OnClick ct ch cn u res u' evs down] e
  show "(\<forall>R h. res \<noteq> Inr (R, True, h)) \<and>
      (\<forall>ev \<in> set evs. \<forall>es. ev \<noteq> OnClickCall es) \<and>
      Buttons u' Label =
        Some \<lparr>active = True, mouse_down = True,
              prev_mouse_down = (case res of Inl e \<Rightarrow> True | Inr v \<Rightarrow> down)\<rparr>"
    by (auto split: sum.splits)
next
  assume a: "Buttons u0 Label = None \<and>
    run_frames (\<lambda>be. Button be Label Pos FontName OnClick ct ch cn) bes u0 = rs \<and>
    k < length rs \<and> rs ! k = Inr (Rk, True, hk)"
  then have e: "Buttons (Button_entry Label u0) Label =
      Some \<lparr>active = True, mouse_down = True, prev_mouse_down = True\<rparr>"
    by (simp add: Button_entry_Some)
  from a have "run_frames (\<lambda>be. Button be Label Pos FontName OnClick ct ch cn) bes u0 = rs"
    "k < length rs" "rs ! k = Inr (Rk, True, hk)" by simp_all
  from run_frames_click [OF this e]
  show "0 < k \<and> IsClick (bes ! (k - 1)) ''Left'' = Inr False \<and>
      IsClick (bes ! k) ''Left'' = Inr True \<and> hk"
    by (auto split: if_splits)
qed


lemma ex_fresh: "Buttons ex_ui ''OK'' = None"
  by code_simp

lemma ex_first_call:
  "fst (ex_Button (ex_be 100 100 1) ex_ui) =
     Inr (\<lparr>XY = \<lparr>X = 90, Y = 90\<rparr>, WH = \<lparr>X = 36, Y = 36\<rparr>\<rparr>, False, True)"
  by code_simp

lemma ex_first_call_events:
  "snd (snd (ex_Button (ex_be 100 100 1) ex_ui)) =
     [FillRect \<lparr>XY = \<lparr>X = 90, Y = 90\<rparr>, WH = \<lparr>X = 36, Y = 36\<rparr>\<rparr> (Vec4 0 0.78 0.376 1),
      BlitSurface ''OK'' 1 (Vec4 0 0.62 0.298 1)
        \<lparr>XY = \<lparr>X = 100, Y = 100\<rparr>, WH = \<lparr>X = 16, Y = 16\<rparr>\<rparr>]"
  by code_simp

lemma ex_fresh_run:
  "run_frames ex_Button [ex_be 100 100 1, ex_be 100 100 0, ex_be 100 100 1] ex_ui =
     [Inr (\<lparr>XY = \<lparr>X = 90, Y = 90\<rparr>, WH = \<lparr>X = 36, Y = 36\<rparr>\<rparr>, False, True),
      Inr (\<lparr>XY = \<lparr>X = 90, Y = 90\<rparr>, WH = \<lparr>X = 36, Y = 36\<rparr>\<rparr>, False, True),
      Inr (\<lparr>XY = \<lparr>X = 90, Y = 90\<rparr>, WH = \<lparr>X = 36, Y = 36\<rparr>\<rparr>, True, True)]"
  by code_simp

theorem Button_first_call_guard_witness:
  "(Buttons ex_ui ''OK'' = None \<and>
    ex_Button (ex_be 100 100 1) ex_ui =
      (Inr (\<lparr>XY = \<lparr>X = 90, Y = 90\<rparr>, WH = \<lparr>X = 36, Y = 36\<rparr>\<rparr>, False, True),
       ex_ui_pressed, snd (snd (ex_Button (ex_be 100 100 1) ex_ui))) \<and>
    IsClick (ex_be 100 100 1) ''Left'' = Inr True \<and>
    Buttons ex_ui_pressed ''OK'' =
      Some \<lparr>active = True, mouse_down = True, prev_mouse_down = True\<rparr>) \<and>
   (run_frames ex_Button [ex_be 100 100 1, ex_be 100 100 0, ex_be 100 100 1] ex_ui =
      [Inr (\<lparr>XY = \<lparr>X = 90, Y = 90\<rparr>, WH = \<lparr>X = 36, Y = 36\<rparr>\<rparr>, False, True),
       Inr (\<lparr>XY = \<lparr>X = 90, Y = 90\<rparr>, WH = \<lparr>X = 36, Y = 36\<rparr>\<rparr>, False, True),
       Inr (\<lparr>XY = \<lparr>X = 90, Y = 90\<rparr>, WH = \<lparr>X = 36, Y = 36\<rparr>\<rparr>, True, True)] \<and>
    IsClick ([ex_be 100 100 1, ex_be 100 100 0, ex_be 100 100 1] ! (2 - 1)) ''Left'' = Inr False \<and>
    IsClick ([ex_be 100 100 1, ex_be 100 100 0, ex_be 100 100 1] ! 2) ''Left'' = Inr True)"
proof -
  let ?R = "\<lparr>XY = \<lparr>X = 90, Y = 90\<rparr>, WH = \<lparr>X = 36, Y = 36\<rparr>\<rparr>"
  let ?call = "ex_Button (ex_be 100 100 1) ex_ui"
  let ?bes = "[ex_be 100 100 1, ex_be 100 100 0, ex_be 100 100 1]"
  let ?rs = "[Inr (?R, False, True), Inr (?R, False, True), Inr (?R, True, True)]"
  have c: "?call = (Inr (?R, False, True), ex_ui_pressed, snd (snd ?call))"
    by (rule prod_eqI) (simp_all add: ex_first_call ex_ui_pressed_def prod_eq_iff)
  have k: "(2::nat) < length ?rs" "?rs ! 2 = Inr (?R, True, True)"
    by simp_all
  note T = Button_first_call_guard [where be = "ex_be 100 100 1" and Label = "''OK''"
      and Pos = "\<lparr>X = 100, Y = 100\<rparr>" and FontName = "''Medium''" and OnClick = SwitchMode
      and ct = 2 and ch = 1 and cn = 3 and u = ex_ui and res = "Inr (?R, False, True)"
      and u' = ex_ui_pressed and evs = "snd (snd ?call)" and down = True
      and ?u0.0 = ex_ui and bes = ?bes and rs = ?rs and k = 2 and Rk = ?R and hk = True,
      folded ex_Button_def]
  from T ex_fresh c ex_IsClick(1)
  have A: "Buttons ex_ui_pressed ''OK'' =
      Some \<lparr>active = True, mouse_down = True,
            prev_mouse_down = (case Inr (?R, False, True) :: error + Rect \<times> bool \<times> bool of
                                 Inl e \<Rightarrow> True | Inr v \<Rightarrow> True)\<rparr>"
    by blast
  from T ex_fresh ex_fresh_run k
  have B: "IsClick (?bes ! (2 - 1)) ''Left'' = Inr False \<and> IsClick (?bes ! 2) ''Left'' = Inr True"
    by blast
  from A have A': "Buttons ex_ui_pressed ''OK'' =
      Some \<lparr>active = True, mouse_down = True, prev_mouse_down = True\<rparr>"
    by simp
  from A' B c ex_fresh ex_IsClick(1) ex_fresh_run show ?thesis
    by blast
qed

text \<open>
  C9. The calls a \<open>Button\<close> call issues are its own draw calls, preceded by at most
  one call of the handler: the handler is called at most once and before any of the
  draw calls. When the call returns \<open>clicked\<close>, the handler ran in the state the call
  was entered in, and the background rectangle and the label are drawn with the
  colours that the hover and text indices resolve to in the state the handler left.
\<close>

theorem Button_handler_before_draw:
  "(Button be Label Pos FontName OnClick ct ch cn u = (res, u', evs) \<longrightarrow>
      (\<exists>ds. (evs = ds \<or> (\<exists>es. evs = OnClickCall es # ds)) \<and>
            (\<forall>ev \<in> set ds. \<forall>es'. ev \<noteq> OnClickCall es'))) \<and>
   (Button be Label Pos FontName OnClick ct ch cn u = (Inr (R, True, h), u', evs) \<longrightarrow>
      (\<exists>es u2 cbg ctx Font w h.
          OnClick u = (Inr (), u2, es) \<and>
          py_index (ColorPaletteMode u2) ch = Inr cbg \<and>
          py_index (ColorPaletteMode u2) ct = Inr ctx \<and>
          evs = [OnClickCall es, FillRect (SDL_Rect (X (XY R)) (Y (XY R)) (X (WH R)) (Y (WH R))) cbg,
                 BlitSurface Label Font ctx (SDL_Rect (X Pos) (Y Pos) w h)]))"
proof (rule conjI; rule impI)
  assume a: "Button be Label Pos FontName OnClick ct ch cn u = (res, u', evs)"
  obtain down where dn: "IsClick be ''Left'' = Inr down"
    by (simp add: IsClick_Left)
  from Button_events [OF a dn]
  show "\<exists>ds. (evs = ds \<or> (\<exists>es. evs = OnClickCall es # ds)) \<and>
            (\<forall>ev \<in> set ds. \<forall>es'. ev \<noteq> OnClickCall es')"
    by blast
next
  assume a: "Button be Label Pos FontName OnClick ct ch cn u = (Inr (R, True, h), u', evs)"
  show "\<exists>es u2 cbg ctx Font w h.
          OnClick u = (Inr (), u2, es) \<and>
          py_index (ColorPaletteMode u2) ch = Inr cbg \<and>
          py_index (ColorPaletteMode u2) ct = Inr ctx \<and>
          evs = [OnClickCall es, FillRect (SDL_Rect (X (XY R)) (Y (XY R)) (X (WH R)) (Y (WH R))) cbg,
                 BlitSurface Label Font ctx (SDL_Rect (X Pos) (Y Pos) w h)]"
  proof (cases rule: Button_cases [of be Label Pos FontName OnClick ct ch cn u])
    case (measure_fails e)
    with a show ?thesis by simp
  next
    case (no_click w h' r R')
    show ?thesis
    proof (cases rule: Button_render_cases [of be Label Pos FontName ct R'
          "if RectIsHover be R' then ch else cn" False "RectIsHover be R'"
          "button_state be AND SDL_BUTTON SDL_BUTTON_LEFT \<noteq> 0" "Button_entry Label u"])
      case (fails e es)
      with no_click(4) a show ?thesis by auto
    next
      case (returns r1 c1 c2 Font w1 h1)
      with no_click(4) a show ?thesis by auto
    qed
  next
    case (handler_fails w h r R e u2 es)
    with a show ?thesis by simp
  next
    case (click w h' r R' u2 es res' u3 es3)
    have seen: "Button_entry Label u = u"
    proof (cases "Buttons u Label")
      case None
      with click(1,5) show ?thesis by (auto simp: Button_entry_Some)
    next
      case (Some r0)
      then show ?thesis by (rule Button_entry_seen)
    qed
    show ?thesis
    proof (cases rule: Button_render_cases [of be Label Pos FontName ct R' ch True True True u2])
      case (fails e es')
      with click(7,8) a show ?thesis by auto
    next
      case (returns r1 c1 c2 Font w1 h1)
      with click(6,7,8) a seen show ?thesis by auto
    qed
  qed
qed

text \<open>
  C10. A \<open>Button\<close> call that does not call the handler, whether it returns or raises,
  changes nothing in the engine but the record of its label: the record is created if
  absent, and has \<open>prev_mouse_down\<close> overwritten with the sampled mouse state when the
  call returns. The records of other labels, the checkbox records, the palette, the
  dark-mode flag and the other fields are unchanged.
\<close>

theorem Button_frame:
  "Button be Label Pos FontName OnClick ct ch cn u = (res, u', evs) \<and>
   (\<forall>ev \<in> set evs. \<forall>es. ev \<noteq> OnClickCall es) \<and>
   IsClick be ''Left'' = Inr down \<longrightarrow>
     (let r0 = (case Buttons u Label of
                  None \<Rightarrow> \<lparr>active = True, mouse_down = True, prev_mouse_down = True\<rparr>
                | Some r \<Rightarrow> r);
          r1 = (case res of Inl e \<Rightarrow> r0 | Inr v \<Rightarrow> r0\<lparr>prev_mouse_down := down\<rparr>)
      in u' = u\<lparr>Buttons := (Buttons u)(Label \<mapsto> r1)\<rparr> \<and>
         Buttons u' Label = Some r1 \<and>
         (\<forall>l. l \<noteq> Label \<longrightarrow> Buttons u' l = Buttons u l) \<and>
         CheckboxStates u' = CheckboxStates u \<and>
         ColorPalette u' = ColorPalette u \<and>
         IsDarkMode u' = IsDarkMode u \<and>
         Fonts u' = Fonts u \<and> Running u' = Running u \<and> ActiveMenu u' = ActiveMenu u)"
proof (rule impI)
  assume a: "Button be Label Pos FontName OnClick ct ch cn u = (res, u', evs) \<and>
   (\<forall>ev \<in> set evs. \<forall>es. ev \<noteq> OnClickCall es) \<and>
   IsClick be ''Left'' = Inr down"
  let ?r0 = "case Buttons u Label of
                  None \<Rightarrow> \<lparr>active = True, mouse_down = True, prev_mouse_down = True\<rparr>
                | Some r \<Rightarrow> r"
  let ?r1 = "case res of Inl e \<Rightarrow> ?r0 | Inr v \<Rightarrow> ?r0\<lparr>prev_mouse_down := down\<rparr>"
  have e: "Button_entry Label u = u\<lparr>Buttons := (Buttons u)(Label \<mapsto> ?r0)\<rparr>"
    by (auto simp: Button_entry_def map_upd_triv)
  from a Button_events [of be Label Pos FontName OnClick ct ch cn u res u' evs down]
  have "u' = (case res of
                     Inl e \<Rightarrow> Button_entry Label u
                   | Inr v \<Rightarrow> (Button_entry Label u)
                       \<lparr>Buttons := (Buttons (Button_entry Label u))
                          (Label \<mapsto> ?r0\<lparr>prev_mouse_down := down\<rparr>)\<rparr>)"
    by (auto simp: Button_entry_Some)
  then have "u' = u\<lparr>Buttons := (Buttons u)(Label \<mapsto> ?r1)\<rparr>"
    by (simp add: e split: sum.splits)
  then show "let r0 = ?r0; r1 = (case res of Inl e \<Rightarrow> r0 | Inr v \<Rightarrow> r0\<lparr>prev_mouse_down := down\<rparr>)
      in u' = u\<lparr>Buttons := (Buttons u)(Label \<mapsto> r1)\<rparr> \<and>
         Buttons u' Label = Some r1 \<and>
         (\<forall>l. l \<noteq> Label \<longrightarrow> Buttons u' l = Buttons u l) \<and>
         CheckboxStates u' = CheckboxStates u \<and>
         ColorPalette u' = ColorPalette u \<and>
         IsDarkMode u' = IsDarkMode u \<and>
         Fonts u' = Fonts u \<and> Running u' = Running u \<and> ActiveMenu u' = ActiveMenu u"
    by (simp add: Let_def)
qed


lemma ex_released_call_events:
  "snd (snd (ex_Button (ex_be 100 100 1) ex_ui_released)) =
     [OnClickCall [],
      FillRect \<lparr>XY = \<lparr>X = 90, Y = 90\<rparr>, WH = \<lparr>X = 36, Y = 36\<rparr>\<rparr> (Vec4 0 0.459 0.224 1),
      BlitSurface ''OK'' 1 (Vec4 0 0.62 0.298 1)
        \<lparr>XY = \<lparr>X = 100, Y = 100\<rparr>, WH = \<lparr>X = 16, Y = 16\<rparr>\<rparr>]"
  by code_simp

lemma ex_released_dark: "IsDarkMode ex_ui_released = True"
  by code_simp

theorem Button_handler_before_draw_witness:
  "ex_Button (ex_be 100 100 1) ex_ui_released =
     (Inr (\<lparr>XY = \<lparr>X = 90, Y = 90\<rparr>, WH = \<lparr>X = 36, Y = 36\<rparr>\<rparr>, True, True),
      fst (snd (ex_Button (ex_be 100 100 1) ex_ui_released)),
      [OnClickCall [],
       FillRect \<lparr>XY = \<lparr>X = 90, Y = 90\<rparr>, WH = \<lparr>X = 36, Y = 36\<rparr>\<rparr> (Vec4 0 0.459 0.224 1),
       BlitSurface ''OK'' 1 (Vec4 0 0.62 0.298 1)
         \<lparr>XY = \<lparr>X = 100, Y = 100\<rparr>, WH = \<lparr>X = 16, Y = 16\<rparr>\<rparr>]) \<and>
   IsDarkMode ex_ui_released = True \<and>
   (\<exists>u2 cbg ctx.
      SwitchMode ex_ui_released = (Inr (), u2, []) \<and>
      py_index (ColorPaletteMode u2) 1 = Inr cbg \<and>
      py_index (ColorPaletteMode u2) 2 = Inr ctx \<and>
      cbg = Vec4 0 0.459 0.224 1 \<and> ctx = Vec4 0 0.62 0.298 1)"
proof -
  let ?R = "\<lparr>XY = \<lparr>X = 90, Y = 90\<rparr>, WH = \<lparr>X = 36, Y = 36\<rparr>\<rparr>"
  let ?call = "ex_Button (ex_be 100 100 1) ex_ui_released"
  let ?evs = "[OnClickCall [],
       FillRect \<lparr>XY = \<lparr>X = 90, Y = 90\<rparr>, WH = \<lparr>X = 36, Y = 36\<rparr>\<rparr> (Vec4 0 0.459 0.224 1),
       BlitSurface ''OK'' 1 (Vec4 0 0.62 0.298 1)
         \<lparr>XY = \<lparr>X = 100, Y = 100\<rparr>, WH = \<lparr>X = 16, Y = 16\<rparr>\<rparr>]"
  have c: "?call = (Inr (?R, True, True), fst (snd ?call), ?evs)"
    by (rule prod_eqI) (simp_all add: ex_released_call ex_released_call_events prod_eq_iff)
  note T = Button_handler_before_draw [where be = "ex_be 100 100 1" and Label = "''OK''"
      and Pos = "\<lparr>X = 100, Y = 100\<rparr>" and FontName = "''Medium''" and OnClick = SwitchMode
      and ct = 2 and ch = 1 and cn = 3 and u = ex_ui_released and res = "Inr (?R, True, True)"
      and u' = "fst (snd ?call)" and evs = ?evs and R = ?R and h = True,
      folded ex_Button_def]
  from T c obtain es u2 cbg ctx Font w h where
    o: "SwitchMode ex_ui_released = (Inr (), u2, es)"
      "py_index (ColorPaletteMode u2) 1 = Inr cbg"
      "py_index (ColorPaletteMode u2) 2 = Inr ctx"
      "?evs = [OnClickCall es, FillRect (SDL_Rect (X (XY ?R)) (Y (XY ?R)) (X (WH ?R)) (Y (WH ?R))) cbg,
               BlitSurface ''OK'' Font ctx (SDL_Rect (X \<lparr>X = 100, Y = 100\<rparr>) (Y \<lparr>X = 100, Y = 100\<rparr>) w h)]"
    by blast
  from o(4) have "es = []" "cbg = Vec4 0 0.459 0.224 1" "ctx = Vec4 0 0.62 0.298 1"
    by simp_all
  with o c ex_released_dark show ?thesis
    by blast
qed

theorem Button_frame_witness:
  "ex_Button (ex_be 100 100 1) ex_ui =
     (Inr (\<lparr>XY = \<lparr>X = 90, Y = 90\<rparr>, WH = \<lparr>X = 36, Y = 36\<rparr>\<rparr>, False, True),
      ex_ui_pressed,
      [FillRect \<lparr>XY = \<lparr>X = 90, Y = 90\<rparr>, WH = \<lparr>X = 36, Y = 36\<rparr>\<rparr> (Vec4 0 0.78 0.376 1),
       BlitSurface ''OK'' 1 (Vec4 0 0.62 0.298 1)
         \<lparr>XY = \<lparr>X = 100, Y = 100\<rparr>, WH = \<lparr>X = 16, Y = 16\<rparr>\<rparr>]) \<and>
   IsClick (ex_be 100 100 1) ''Left'' = Inr True \<and>
   ex_ui_pressed =
     ex_ui\<lparr>Buttons := (Buttons ex_ui)
       (''OK'' \<mapsto> \<lparr>active = True, mouse_down = True, prev_mouse_down = True\<rparr>)\<rparr>"
proof -
  let ?R = "\<lparr>XY = \<lparr>X = 90, Y = 90\<rparr>, WH = \<lparr>X = 36, Y = 36\<rparr>\<rparr>"
  let ?call = "ex_Button (ex_be 100 100 1) ex_ui"
  let ?evs = "[FillRect \<lparr>XY = \<lparr>X = 90, Y = 90\<rparr>, WH = \<lparr>X = 36, Y = 36\<rparr>\<rparr> (Vec4 0 0.78 0.376 1),
       BlitSurface ''OK'' 1 (Vec4 0 0.62 0.298 1)
         \<lparr>XY = \<lparr>X = 100, Y = 100\<rparr>, WH = \<lparr>X = 16, Y = 16\<rparr>\<rparr>]"
  have c: "?call = (Inr (?R, False, True), ex_ui_pressed, ?evs)"
    by (rule prod_eqI)
      (simp_all add: ex_first_call ex_first_call_events ex_ui_pressed_def prod_eq_iff)
  have n: "\<forall>ev \<in> set ?evs. \<forall>es. ev \<noteq> OnClickCall es"
    by simp
  note T = Button_frame [where be = "ex_be 100 100 1" and Label = "''OK''"
      and Pos = "\<lparr>X = 100, Y = 100\<rparr>" and FontName = "''Medium''" and OnClick = SwitchMode
      and ct = 2 and ch = 1 and cn = 3 and u = ex_ui and res = "Inr (?R, False, True)"
      and u' = ex_ui_pressed and evs = ?evs and down = True,
      folded ex_Button_def]
  from T c n ex_IsClick(1)
  have "let r0 = (case Buttons ex_ui ''OK'' of
                  None \<Rightarrow> \<lparr>active = True, mouse_down = True, prev_mouse_down = True\<rparr>
                | Some r \<Rightarrow> r);
          r1 = (case Inr (?R, False, True) :: error + Rect \<times> bool \<times> bool of
                  Inl e \<Rightarrow> r0 | Inr v \<Rightarrow> r0\<lparr>prev_mouse_down := True\<rparr>)
      in ex_ui_pressed = ex_ui\<lparr>Buttons := (Buttons ex_ui)(''OK'' \<mapsto> r1)\<rparr> \<and>
         Buttons ex_ui_pressed ''OK'' = Some r1 \<and>
         (\<forall>l. l \<noteq> ''OK'' \<longrightarrow> Buttons ex_ui_pressed l = Buttons ex_ui l) \<and>
         CheckboxStates ex_ui_pressed = CheckboxStates ex_ui \<and>
         ColorPalette ex_ui_pressed = ColorPalette ex_ui \<and>
         IsDarkMode ex_ui_pressed = IsDarkMode ex_ui \<and>
         Fonts ex_ui_pressed = Fonts ex_ui \<and> Running ex_ui_pressed = Running ex_ui \<and>
         ActiveMenu ex_ui_pressed = ActiveMenu ex_ui"
    by blast
  then have "ex_ui_pressed =
     ex_ui\<lparr>Buttons := (Buttons ex_ui)
       (''OK'' \<mapsto> \<lparr>active = True, mouse_down = True, prev_mouse_down = True\<rparr>)\<rparr>"
    by (simp add: Let_def ex_fresh)
  with c ex_IsClick(1) show ?thesis
    by blast
qed

section \<open>Checkbox\<close>

lemma Checkbox_entry_Some:
  "CheckboxStates (Checkbox_entry Label u) Label =
     Some (case CheckboxStates u Label of
             None \<Rightarrow> \<lparr>checked = False, cb_mouse_down = False\<rparr>
           | Some r \<Rightarrow> r)"
  by (auto simp: Checkbox_entry_def)

lemma Checkbox_entry_seen: "CheckboxStates u Label = Some r \<Longrightarrow> Checkbox_entry Label u = u"
  by (simp add: Checkbox_entry_def)

lemma Checkbox_unfold:
  "Checkbox be Label Pos FontName cb ci cih ct u =
     seq (Checkbox_toggle be Label Pos cih (RectIsHover be \<lparr>XY = Pos, WH = \<lparr>X = 20, Y = 20\<rparr>\<rparr>))
       (\<lambda>_. Checkbox_draw be Label Pos FontName cb ci ct
               (RectIsHover be \<lparr>XY = Pos, WH = \<lparr>X = 20, Y = 20\<rparr>\<rparr>))
       (Checkbox_entry Label u)"
proof -
  let ?init = "\<lambda>u. if CheckboxStates u Label = None
               then CheckboxStates_put Label \<lparr>checked = False, cb_mouse_down = False\<rparr> u
               else ret () u"
  have e: "?init u = (Inr (), Checkbox_entry Label u, [])"
    by (simp add: Checkbox_entry_def CheckboxStates_put_def modify_def ret_def)
  note e' = seq_result [where f = ?init, OF e]
  show ?thesis
    unfolding Checkbox_def Let_def Checkbox_toggle_def Checkbox_draw_def
    by (simp add: e' cong: if_cong)
qed


lemma RectBorder_cases:
  obtains (fails) "RectBorder Pos Size ColorIdx Thickness u = (Inl IndexError, u, [])"
  | (draws) Color where "py_index (ColorPaletteMode u) ColorIdx = Inr Color"
      "RectBorder Pos Size ColorIdx Thickness u =
         (Inr (), u,
          [FillRect (SDL_Rect (X Pos) (Y Pos) (X Size) Thickness) Color,
           FillRect (SDL_Rect (X Pos) (Y Pos) Thickness (Y Size)) Color,
           FillRect (SDL_Rect (X Pos) (Y Pos + Y Size - Thickness) (X Size) Thickness) Color,
           FillRect (SDL_Rect (X Pos + X Size - Thickness) (Y Pos) Thickness (Y Size)) Color])"
proof (cases "py_index (ColorPaletteMode u) ColorIdx")
  case (Inl e)
  then have e: "e = IndexError"
    by (simp add: py_index_def Let_def split: if_splits)
  have "RectBorder Pos Size ColorIdx Thickness u = (Inl IndexError, u, [])"
    unfolding RectBorder_def
    using Rect_draw_bad_index [OF Inl] e by (simp add: seq_def)
  then show ?thesis by (rule fails)
next
  case (Inr Color)
  have "RectBorder Pos Size ColorIdx Thickness u =
         (Inr (), u,
          [FillRect (SDL_Rect (X Pos) (Y Pos) (X Size) Thickness) Color,
           FillRect (SDL_Rect (X Pos) (Y Pos) Thickness (Y Size)) Color,
           FillRect (SDL_Rect (X Pos) (Y Pos + Y Size - Thickness) (X Size) Thickness) Color,
           FillRect (SDL_Rect (X Pos + X Size - Thickness) (Y Pos) Thickness (Y Size)) Color])"
    unfolding RectBorder_def
    by (simp add: seq_def Rect_draw_ok [OF Inr])
  with Inr show ?thesis by (rule draws)
qed

lemma Checkbox_toggle_cases:
  assumes "CheckboxStates u Label = Some r" and "IsClick be ''Left'' = Inr down"
  obtains (fails) "hov" "\<not> checked r"
      "py_index (ColorPaletteMode u) cih = Inl IndexError"
      "Checkbox_toggle be Label Pos cih hov u = (Inl IndexError, u, [])"
  | (toggles) es where
      "Checkbox_toggle be Label Pos cih hov u =
         (Inr (), u\<lparr>CheckboxStates := (CheckboxStates u)(Label \<mapsto> Checkbox_rule hov down r)\<rparr>, es)"
      "\<forall>ev \<in> set es. \<exists>c. ev = FillRect (SDL_Rect (X Pos + 4) (Y Pos + 4) 12 12) c"
proof -
  have g: "CheckboxStates_get Label u = (Inr r, u, [])"
    using assms(1) by (simp add: CheckboxStates_get_def lift_def)
  show thesis
  proof (cases hov)
    case False
    then have "Checkbox_toggle be Label Pos cih hov u =
         (Inr (), u\<lparr>CheckboxStates := (CheckboxStates u)(Label \<mapsto> Checkbox_rule hov down r)\<rparr>, [])"
      by (simp add: Checkbox_toggle_def seq_def g CheckboxStates_put_def modify_def Checkbox_rule_def)
    then show thesis using toggles by simp
  next
    case True
    let ?tint = "if \<not> checked r
                  then Rect_draw (Nat2_add Pos \<lparr>X = 4, Y = 4\<rparr>) \<lparr>X = 20 - 8, Y = 20 - 8\<rparr> cih
                  else ret ()"
    have after: "\<And>es. ?tint u = (Inr (), u, es) \<Longrightarrow>
        Checkbox_toggle be Label Pos cih hov u =
         (Inr (), u\<lparr>CheckboxStates := (CheckboxStates u)(Label \<mapsto> Checkbox_rule hov down r)\<rparr>, es)"
      using True assms
      by (simp add: Checkbox_toggle_def seq_def g lift_def ret_def CheckboxStates_get_def
          CheckboxStates_put_def modify_def Checkbox_rule_def map_upd_triv)
    show thesis
    proof (cases "checked r")
      case True
      then have "?tint u = (Inr (), u, [])" by (simp add: ret_def)
      from after [OF this] toggles show thesis by simp
    next
      case False
      show thesis
      proof (cases rule: Rect_draw_cases [of "Nat2_add Pos \<lparr>X = 4, Y = 4\<rparr>" "\<lparr>X = 12, Y = 12\<rparr>" cih u])
        case fails': fails
        then have i: "py_index (ColorPaletteMode u) cih = Inl IndexError"
          by (simp add: Rect_draw_def seq_def lift_def emit_def split: sum.splits)
        have "Checkbox_toggle be Label Pos cih hov u = (Inl IndexError, u, [])"
          using \<open>hov\<close> False fails'
          by (simp add: Checkbox_toggle_def seq_def g)
        from fails [OF \<open>hov\<close> False i this] show thesis .
      next
        case (draws Color)
        with False have "?tint u = (Inr (), u, [FillRect (SDL_Rect (X Pos + 4) (Y Pos + 4) 12 12) Color])"
          by (simp add: Nat2_add_def)
        from after [OF this] toggles show thesis by simp
      qed
    qed
  qed
qed

lemma Checkbox_draw_cases:
  assumes "CheckboxStates u Label = Some r"
  obtains (fails) e es where "Checkbox_draw be Label Pos FontName cb ci ct hov u = (Inl e, u, es)"
      "\<forall>ev \<in> set es. \<exists>p c. ev = FillRect p c"
      "(\<exists>Color. py_index (ColorPaletteMode u) cb = Inr Color) \<or>
         (\<forall>ev \<in> set es. \<exists>c. ev = FillRect (SDL_Rect (X Pos + 4) (Y Pos + 4) 12 12) c)"
  | (returns) es where "Checkbox_draw be Label Pos FontName cb ci ct hov u = (Inr (checked r, hov), u, es)"
proof -
  have g: "CheckboxStates_get Label u = (Inr r, u, [])"
    using assms(1) by (simp add: CheckboxStates_get_def lift_def)
  let ?fill = "if checked r
           then Rect_draw (Nat2_add Pos \<lparr>X = 4, Y = 4\<rparr>) \<lparr>X = 20 - 8, Y = 20 - 8\<rparr> ci
           else ret ()"
  have fill: "?fill u = (Inl IndexError, u, []) \<or>
      (\<exists>es. ?fill u = (Inr (), u, es) \<and>
         (\<forall>ev \<in> set es. \<exists>c. ev = FillRect (SDL_Rect (X Pos + 4) (Y Pos + 4) 12 12) c))"
    by (cases rule: Rect_draw_cases [of "Nat2_add Pos \<lparr>X = 4, Y = 4\<rparr>" "\<lparr>X = 12, Y = 12\<rparr>" ci u])
      (auto simp: ret_def Nat2_add_def)
  then show thesis
  proof
    assume f: "?fill u = (Inl IndexError, u, [])"
    have "Checkbox_draw be Label Pos FontName cb ci ct hov u = (Inl IndexError, u, [])"
      using f by (simp add: Checkbox_draw_def seq_def g cong: if_cong)
    then show thesis using fails by simp
  next
    assume "\<exists>es. ?fill u = (Inr (), u, es) \<and>
         (\<forall>ev \<in> set es. \<exists>c. ev = FillRect (SDL_Rect (X Pos + 4) (Y Pos + 4) 12 12) c)"
    then obtain es0 where f: "?fill u = (Inr (), u, es0)"
      and es0: "\<forall>ev \<in> set es0. \<exists>c. ev = FillRect (SDL_Rect (X Pos + 4) (Y Pos + 4) 12 12) c"
      by blast
    show thesis
    proof (cases rule: RectBorder_cases [of Pos "\<lparr>X = 20, Y = 20\<rparr>" cb 2 u])
      case fails': fails
      have "Checkbox_draw be Label Pos FontName cb ci ct hov u = (Inl IndexError, u, es0)"
        using f fails' by (simp add: Checkbox_draw_def seq_def g cong: if_cong)
      with es0 show thesis using fails by blast
    next
      case (draws Color)
      show thesis
      proof (cases rule: Text_cases [of be Label "Nat2_add Pos \<lparr>X = 20 + 10, Y = 0\<rparr>" FontName ct False u])
        case fails': (fails e)
        have "\<exists>es. Checkbox_draw be Label Pos FontName cb ci ct hov u = (Inl e, u, es) \<and>
                (\<forall>ev \<in> set es. \<exists>p c. ev = FillRect p c)"
          using f draws(2) fails' es0
          by (auto simp: Checkbox_draw_def seq_def g cong: if_cong)
        with draws(1) show thesis using fails by blast
      next
        case (renders w h Font c2)
        have "\<exists>es. Checkbox_draw be Label Pos FontName cb ci ct hov u = (Inr (checked r, hov), u, es)"
          using f draws(2) renders(2)
          by (simp add: Checkbox_draw_def seq_def g ret_def cong: if_cong)
        then show thesis using returns by blast
      qed
    qed
  qed
qed


lemma Checkbox_returns:
  assumes "Checkbox be Label Pos FontName cb ci cih ct u = (Inr (c, h), u', evs)"
    and "IsClick be ''Left'' = Inr down"
  shows "\<exists>r0. CheckboxStates (Checkbox_entry Label u) Label = Some r0 \<and>
           h = RectIsHover be \<lparr>XY = Pos, WH = \<lparr>X = 20, Y = 20\<rparr>\<rparr> \<and>
           u' = (Checkbox_entry Label u)
                  \<lparr>CheckboxStates := (CheckboxStates (Checkbox_entry Label u))
                     (Label \<mapsto> Checkbox_rule h down r0)\<rparr> \<and>
           c = checked (Checkbox_rule h down r0)"
proof -
  let ?u1 = "Checkbox_entry Label u"
  let ?hov = "RectIsHover be \<lparr>XY = Pos, WH = \<lparr>X = 20, Y = 20\<rparr>\<rparr>"
  let ?T = "Checkbox_toggle be Label Pos cih ?hov"
  let ?D = "\<lambda>_::unit. Checkbox_draw be Label Pos FontName cb ci ct ?hov"
  obtain r0 where r0: "CheckboxStates ?u1 Label = Some r0"
    by (simp add: Checkbox_entry_Some)
  have unf: "Checkbox be Label Pos FontName cb ci cih ct u = seq ?T ?D ?u1"
    by (rule Checkbox_unfold)
  from r0 assms(2) show ?thesis
  proof (cases rule: Checkbox_toggle_cases [where hov = ?hov and Pos = Pos and cih = cih])
    case fails
    from seq_error [where f = ?T and g = ?D, OF fails(4)] unf assms(1)
    show ?thesis by simp
  next
    case (toggles es)
    let ?u2 = "?u1\<lparr>CheckboxStates := (CheckboxStates ?u1)(Label \<mapsto> Checkbox_rule ?hov down r0)\<rparr>"
    have r2: "CheckboxStates ?u2 Label = Some (Checkbox_rule ?hov down r0)"
      by simp
    from seq_result [where f = ?T and g = ?D, OF toggles(1)] unf
    have k: "Checkbox be Label Pos FontName cb ci cih ct u =
        (case Checkbox_draw be Label Pos FontName cb ci ct ?hov ?u2 of
           (r, u'', es') \<Rightarrow> (r, u'', es @ es'))"
      by simp
    from r2 show ?thesis
    proof (cases rule: Checkbox_draw_cases [where be = be and Pos = Pos
          and FontName = FontName and cb = cb and ci = ci and ct = ct and hov = ?hov])
      case (fails e es')
      with k assms(1) show ?thesis by simp
    next
      case (returns es')
      with k assms(1) r0 show ?thesis by auto
    qed
  qed
qed

text \<open>
  C3. A \<open>Checkbox\<close> call that returns applies this rule to the record of its label
  (a new label starting unchecked with the stored mouse flag false): hovered, button
  down and stored flag false: \<open>checked\<close> flips and the flag becomes true; hovered,
  button down and flag true: nothing changes; hovered with the button up, or not
  hovered: the flag becomes false and \<open>checked\<close> stays; the call returns the
  \<open>checked\<close> it leaves. So the frames hover+down, hover+down, hover+up on a new label
  return checked = true three times, and a frame with the button down outside the box
  followed by a hovered frame with the button still down toggles on the hovered frame.
\<close>

theorem Checkbox_toggle_on_press:
  "(Checkbox be Label Pos FontName cb ci cih ct u = (Inr (c, h), u', evs) \<and>
    IsClick be ''Left'' = Inr down \<and>
    r0 = (case CheckboxStates u Label of
            None \<Rightarrow> \<lparr>checked = False, cb_mouse_down = False\<rparr> | Some r \<Rightarrow> r) \<longrightarrow>
      h = RectIsHover be \<lparr>XY = Pos, WH = \<lparr>X = 20, Y = 20\<rparr>\<rparr> \<and>
      (\<exists>r'. CheckboxStates u' Label = Some r' \<and> c = checked r' \<and>
         (h \<and> down \<and> \<not> cb_mouse_down r0 \<longrightarrow>
            checked r' = (\<not> checked r0) \<and> cb_mouse_down r') \<and>
         (h \<and> down \<and> cb_mouse_down r0 \<longrightarrow> r' = r0) \<and>
         (\<not> (h \<and> down) \<longrightarrow> checked r' = checked r0 \<and> \<not> cb_mouse_down r'))) \<and>
   (CheckboxStates u0 Label = None \<and>
    run_frames (\<lambda>be. Checkbox be Label Pos FontName cb ci cih ct) [be1, be2, be3] u0 =
      [Inr (c1, True), Inr (c2, True), Inr (c3, True)] \<and>
    IsClick be1 ''Left'' = Inr True \<and> IsClick be2 ''Left'' = Inr True \<and>
    IsClick be3 ''Left'' = Inr False \<longrightarrow>
      c1 \<and> c2 \<and> c3) \<and>
   (run_frames (\<lambda>be. Checkbox be Label Pos FontName cb ci cih ct) [bea, beb] ua =
      [Inr (ca, False), Inr (cb', True)] \<and>
    IsClick bea ''Left'' = Inr True \<and> IsClick beb ''Left'' = Inr True \<and>
    ra = (case CheckboxStates ua Label of
            None \<Rightarrow> \<lparr>checked = False, cb_mouse_down = False\<rparr> | Some r \<Rightarrow> r) \<longrightarrow>
      ca = checked ra \<and> cb' = (\<not> checked ra))"
proof (intro conjI; rule impI)
  assume a: "Checkbox be Label Pos FontName cb ci cih ct u = (Inr (c, h), u', evs) \<and>
    IsClick be ''Left'' = Inr down \<and>
    r0 = (case CheckboxStates u Label of
            None \<Rightarrow> \<lparr>checked = False, cb_mouse_down = False\<rparr> | Some r \<Rightarrow> r)"
  from a Checkbox_returns [of be Label Pos FontName cb ci cih ct u c h u' evs down]
  show "h = RectIsHover be \<lparr>XY = Pos, WH = \<lparr>X = 20, Y = 20\<rparr>\<rparr> \<and>
      (\<exists>r'. CheckboxStates u' Label = Some r' \<and> c = checked r' \<and>
         (h \<and> down \<and> \<not> cb_mouse_down r0 \<longrightarrow>
            checked r' = (\<not> checked r0) \<and> cb_mouse_down r') \<and>
         (h \<and> down \<and> cb_mouse_down r0 \<longrightarrow> r' = r0) \<and>
         (\<not> (h \<and> down) \<longrightarrow> checked r' = checked r0 \<and> \<not> cb_mouse_down r'))"
    by (auto simp: Checkbox_entry_Some Checkbox_rule_def)
next
  let ?W = "\<lambda>be. Checkbox be Label Pos FontName cb ci cih ct"
  assume a: "CheckboxStates u0 Label = None \<and>
    run_frames ?W [be1, be2, be3] u0 = [Inr (c1, True), Inr (c2, True), Inr (c3, True)] \<and>
    IsClick be1 ''Left'' = Inr True \<and> IsClick be2 ''Left'' = Inr True \<and>
    IsClick be3 ''Left'' = Inr False"
  then have r: "run_frames ?W [be1, be2, be3] u0 = [Inr (c1, True), Inr (c2, True), Inr (c3, True)]"
    and k: "IsClick be1 ''Left'' = Inr True" "IsClick be2 ''Left'' = Inr True"
      "IsClick be3 ''Left'' = Inr False"
    and n: "CheckboxStates u0 Label = None" by simp_all
  from run_frames_Cons_Inr [OF r] obtain u1 e1 where
    b1: "?W be1 u0 = (Inr (c1, True), u1, e1)" and
    r1: "run_frames ?W [be2, be3] u1 = [Inr (c2, True), Inr (c3, True)]"
    by blast
  from run_frames_Cons_Inr [OF r1] obtain u2 e2 where
    b2: "?W be2 u1 = (Inr (c2, True), u2, e2)" and
    r2: "run_frames ?W [be3] u2 = [Inr (c3, True)]"
    by blast
  from run_frames_Cons_Inr [OF r2] obtain u3 e3 where
    b3: "?W be3 u2 = (Inr (c3, True), u3, e3)"
    by blast
  from Checkbox_returns [OF b1 k(1)] n
  have s1: "c1" "CheckboxStates u1 Label = Some \<lparr>checked = True, cb_mouse_down = True\<rparr>"
    by (auto simp: Checkbox_entry_Some Checkbox_rule_def)
  from Checkbox_returns [OF b2 k(2)] s1(2)
  have s2: "c2" "CheckboxStates u2 Label = Some \<lparr>checked = True, cb_mouse_down = True\<rparr>"
    by (auto simp: Checkbox_entry_Some Checkbox_rule_def)
  from Checkbox_returns [OF b3 k(3)] s2(2)
  have "c3"
    by (auto simp: Checkbox_entry_Some Checkbox_rule_def)
  with s1(1) s2(1) show "c1 \<and> c2 \<and> c3" by simp
next
  let ?W = "\<lambda>be. Checkbox be Label Pos FontName cb ci cih ct"
  assume a: "run_frames ?W [bea, beb] ua = [Inr (ca, False), Inr (cb', True)] \<and>
    IsClick bea ''Left'' = Inr True \<and> IsClick beb ''Left'' = Inr True \<and>
    ra = (case CheckboxStates ua Label of
            None \<Rightarrow> \<lparr>checked = False, cb_mouse_down = False\<rparr> | Some r \<Rightarrow> r)"
  then have r: "run_frames ?W [bea, beb] ua = [Inr (ca, False), Inr (cb', True)]"
    and k: "IsClick bea ''Left'' = Inr True" "IsClick beb ''Left'' = Inr True"
    and ra: "CheckboxStates (Checkbox_entry Label ua) Label = Some ra"
    by (simp_all add: Checkbox_entry_Some)
  from run_frames_Cons_Inr [OF r] obtain u1 e1 where
    b1: "?W bea ua = (Inr (ca, False), u1, e1)" and
    r1: "run_frames ?W [beb] u1 = [Inr (cb', True)]"
    by blast
  from run_frames_Cons_Inr [OF r1] obtain u2 e2 where
    b2: "?W beb u1 = (Inr (cb', True), u2, e2)"
    by blast
  from Checkbox_returns [OF b1 k(1)] ra
  have s1: "ca = checked ra"
    "CheckboxStates u1 Label = Some (ra\<lparr>cb_mouse_down := False\<rparr>)"
    by (auto simp: Checkbox_rule_def)
  from Checkbox_returns [OF b2 k(2)] s1(2)
  have "cb' = (\<not> checked ra)"
    by (auto simp: Checkbox_entry_Some Checkbox_rule_def)
  with s1(1) show "ca = checked ra \<and> cb' = (\<not> checked ra)" by simp
qed

lemma ex_Checkbox_run:
  "run_frames ex_Checkbox [ex_be 100 160 1, ex_be 100 160 1, ex_be 100 160 0] ex_ui =
     [Inr (True, True), Inr (True, True), Inr (True, True)]"
  by code_simp

lemma ex_Checkbox_drag_run:
  "run_frames ex_Checkbox [ex_be 0 0 1, ex_be 100 160 1] ex_ui =
     [Inr (False, False), Inr (True, True)]"
  by code_simp

lemma ex_Checkbox_call:
  "fst (ex_Checkbox (ex_be 100 160 1) ex_ui) = Inr (True, True)"
  by code_simp

lemma ex_Checkbox_fresh: "CheckboxStates ex_ui ''Testing'' = None"
  by code_simp

lemma ex_IsClick_cb:
  "IsClick (ex_be 100 160 1) ''Left'' = Inr True"
  "IsClick (ex_be 100 160 0) ''Left'' = Inr False"
  "IsClick (ex_be 0 0 1) ''Left'' = Inr True"
  by code_simp+


theorem Checkbox_toggle_on_press_witness:
  "(ex_Checkbox (ex_be 100 160 1) ex_ui =
      (Inr (True, True), fst (snd (ex_Checkbox (ex_be 100 160 1) ex_ui)),
       snd (snd (ex_Checkbox (ex_be 100 160 1) ex_ui))) \<and>
    IsClick (ex_be 100 160 1) ''Left'' = Inr True \<and>
    CheckboxStates ex_ui ''Testing'' = None \<and>
    (\<exists>r'. CheckboxStates (fst (snd (ex_Checkbox (ex_be 100 160 1) ex_ui))) ''Testing'' = Some r' \<and>
          checked r' \<and> cb_mouse_down r')) \<and>
   (run_frames ex_Checkbox [ex_be 100 160 1, ex_be 100 160 1, ex_be 100 160 0] ex_ui =
      [Inr (True, True), Inr (True, True), Inr (True, True)] \<and>
    IsClick (ex_be 100 160 0) ''Left'' = Inr False \<and> (True \<and> True \<and> True)) \<and>
   (run_frames ex_Checkbox [ex_be 0 0 1, ex_be 100 160 1] ex_ui =
      [Inr (False, False), Inr (True, True)] \<and>
    IsClick (ex_be 0 0 1) ''Left'' = Inr True \<and>
    False = checked \<lparr>checked = False, cb_mouse_down = False\<rparr> \<and>
    True = (\<not> checked \<lparr>checked = False, cb_mouse_down = False\<rparr>))"
proof -
  let ?call = "ex_Checkbox (ex_be 100 160 1) ex_ui"
  let ?r0 = "\<lparr>checked = False, cb_mouse_down = False\<rparr>"
  have c: "?call = (Inr (True, True), fst (snd ?call), snd (snd ?call))"
    by (rule prod_eqI) (simp_all add: ex_Checkbox_call)
  have i: "?r0 = (case CheckboxStates ex_ui ''Testing'' of None \<Rightarrow> ?r0 | Some r \<Rightarrow> r)"
    by (simp add: ex_Checkbox_fresh)
  have p: "True \<and> True \<and> \<not> cb_mouse_down ?r0" by simp
  note T = Checkbox_toggle_on_press [where be = "ex_be 100 160 1" and Label = "''Testing''"
      and Pos = "\<lparr>X = 100, Y = 160\<rparr>" and FontName = "''Medium''"
      and cb = 0 and ci = 1 and cih = 2 and ct = 0 and u = ex_ui
      and c = True and h = True and u' = "fst (snd ?call)" and evs = "snd (snd ?call)"
      and down = True and ?r0.0 = ?r0
      and ?u0.0 = ex_ui and ?be1.0 = "ex_be 100 160 1" and ?be2.0 = "ex_be 100 160 1"
      and ?be3.0 = "ex_be 100 160 0" and ?c1.0 = True and ?c2.0 = True and ?c3.0 = True
      and bea = "ex_be 0 0 1" and beb = "ex_be 100 160 1" and ua = ex_ui
      and ca = False and cb' = True and ra = ?r0,
      folded ex_Checkbox_def]
  from T c ex_IsClick_cb(1) i p
  have A: "\<exists>r'. CheckboxStates (fst (snd ?call)) ''Testing'' = Some r' \<and>
      True = checked r' \<and> checked r' = (\<not> checked ?r0) \<and> cb_mouse_down r'"
    by blast
  then have A': "\<exists>r'. CheckboxStates (fst (snd ?call)) ''Testing'' = Some r' \<and>
      checked r' \<and> cb_mouse_down r'"
    by auto
  from T ex_Checkbox_fresh ex_Checkbox_run ex_IsClick_cb
  have B: "True \<and> True \<and> True"
    by blast
  from T ex_Checkbox_drag_run ex_IsClick_cb i
  have C: "False = checked ?r0 \<and> True = (\<not> checked ?r0)"
    by blast
  from A' B C c ex_IsClick_cb ex_Checkbox_fresh ex_Checkbox_run ex_Checkbox_drag_run
  show ?thesis
    by blast
qed

section \<open>Palette indices out of range\<close>

lemma ColorPaletteMode_Button_entry:
  "ColorPaletteMode (Button_entry Label u) = ColorPaletteMode u"
  by (simp add: Button_entry_def ColorPaletteMode_def)

lemma ColorPaletteMode_CheckboxStates_update:
  "ColorPaletteMode (u\<lparr>CheckboxStates := m\<rparr>) = ColorPaletteMode u"
  by (simp add: ColorPaletteMode_def)

lemma ColorPaletteMode_Checkbox_entry:
  "ColorPaletteMode (Checkbox_entry Label u) = ColorPaletteMode u"
  by (simp add: Checkbox_entry_def ColorPaletteMode_def)

lemma ColorPalette_Button_entry: "ColorPalette (Button_entry Label u) = ColorPalette u"
  by (simp add: Button_entry_def)

lemma Fonts_Button_entry: "Fonts (Button_entry Label u) = Fonts u"
  by (simp add: Button_entry_def)

lemma palette_bad_index:
  "out_of_range idx (ColorPalette u) \<Longrightarrow> py_index (ColorPaletteMode u) idx = Inl IndexError"
  by (simp add: py_index_out_of_range length_ColorPaletteMode)

lemma Text_same:
  assumes "ColorPaletteMode u' = ColorPaletteMode u" and "Fonts u' = Fonts u"
  shows "fst (Text be Str Pos FontName ColorIdx NoDraw u') =
         fst (Text be Str Pos FontName ColorIdx NoDraw u)"
  using assms
  by (simp add: Text_def action_defs Let_def split: sum.splits option.splits prod.splits)

lemma Text_measure:
  assumes "fst (Text be Str Pos FontName ColorIdx True u) = Inr TR"
    and "ColorPaletteMode u' = ColorPaletteMode u" and "Fonts u' = Fonts u"
  shows "Text be Str Pos FontName ColorIdx True u' = (Inr TR, u', [])"
proof -
  from Text_same [OF assms(2,3)] assms(1)
  have f: "fst (Text be Str Pos FontName ColorIdx True u') = Inr TR" by simp
  show ?thesis
  proof (cases rule: Text_cases [of be Str Pos FontName ColorIdx True u'])
    case (fails e)
    with f show ?thesis by simp
  next
    case (renders w h Font Color)
    with f show ?thesis by simp
  qed
qed

lemma Button_render_bad_index:
  assumes "out_of_range idx (ColorPalette u)"
  shows "Button_render be Label Pos FontName ct R idx clicked hov d u = (Inl IndexError, u, [])"
  unfolding Button_render_def
  by (rule seq_error [where f = "Rect_draw (XY R) (WH R) idx",
        OF Rect_draw_bad_index [OF palette_bad_index [OF assms]]])

lemma Button_bad_text_index:
  assumes "out_of_range idx (ColorPalette u)"
  shows "Button be Label Pos FontName OnClick idx ch cn u = (Inl IndexError, Button_entry Label u, [])"
proof -
  have "py_index (ColorPaletteMode (Button_entry Label u)) idx = Inl IndexError"
    using palette_bad_index [OF assms] by (simp add: ColorPaletteMode_Button_entry)
  from Text_bad_index [OF this] show ?thesis
    by (simp add: Button_unfold)
qed

lemma Button_bad_background:
  assumes t: "fst (Text be Label Pos FontName ct True u) = Inr TR"
    and r: "Buttons (Button_entry Label u) Label = Some rb"
    and d: "IsClick be ''Left'' = Inr down"
    and n: "\<not> (RectIsHover be (Button_rect TR) \<and> down \<and> \<not> prev_mouse_down rb)"
    and i: "out_of_range (if RectIsHover be (Button_rect TR) then ch else cn) (ColorPalette u)"
  shows "Button be Label Pos FontName OnClick ct ch cn u = (Inl IndexError, Button_entry Label u, [])"
proof -
  let ?u1 = "Button_entry Label u"
  have m: "Text be Label Pos FontName ct True ?u1 = (Inr TR, ?u1, [])"
    by (rule Text_measure [OF t ColorPaletteMode_Button_entry Fonts_Button_entry])
  have dn: "down = (button_state be AND SDL_BUTTON SDL_BUTTON_LEFT \<noteq> 0)"
    using d by (simp add: IsClick_Left)
  have p: "out_of_range (if RectIsHover be (Button_rect TR) then ch else cn) (ColorPalette ?u1)"
    using i by (simp only: ColorPalette_Button_entry)
  from n have n': "(RectIsHover be (Button_rect TR) \<and> down \<and> \<not> prev_mouse_down rb) = False"
    by simp
  show ?thesis
    by (simp add: Button_unfold m Let_def r dn [symmetric] n' Button_render_bad_index [OF p])
qed

lemma Button_bad_hover_click:
  assumes t: "fst (Text be Label Pos FontName ct True u) = Inr TR"
    and r: "Buttons (Button_entry Label u) Label = Some rb"
    and d: "IsClick be ''Left'' = Inr down"
    and n: "RectIsHover be (Button_rect TR)" "down" "\<not> prev_mouse_down rb"
    and o: "OnClick (Button_entry Label u) = (Inr (), u2, es)"
    and i: "out_of_range ch (ColorPalette u2)"
  shows "Button be Label Pos FontName OnClick ct ch cn u = (Inl IndexError, u2, [OnClickCall es])"
proof -
  let ?u1 = "Button_entry Label u"
  have m: "Text be Label Pos FontName ct True ?u1 = (Inr TR, ?u1, [])"
    by (rule Text_measure [OF t ColorPaletteMode_Button_entry Fonts_Button_entry])
  have dn: "down = (button_state be AND SDL_BUTTON SDL_BUTTON_LEFT \<noteq> 0)"
    using d by (simp add: IsClick_Left)
  from n show ?thesis
    by (simp add: Button_unfold m Let_def r dn [symmetric] o Button_render_bad_index [OF i])
qed


lemma Checkbox_fill_cases:
  "(if c then Rect_draw (Nat2_add Pos \<lparr>X = 4, Y = 4\<rparr>) \<lparr>X = 20 - 8, Y = 20 - 8\<rparr> ci else ret ()) u =
      (Inl IndexError, u, []) \<or>
   (\<exists>es. (if c then Rect_draw (Nat2_add Pos \<lparr>X = 4, Y = 4\<rparr>) \<lparr>X = 20 - 8, Y = 20 - 8\<rparr> ci
           else ret ()) u = (Inr (), u, es) \<and>
         (\<forall>ev \<in> set es. \<exists>c. ev = FillRect (SDL_Rect (X Pos + 4) (Y Pos + 4) 12 12) c))"
  by (cases rule: Rect_draw_cases [of "Nat2_add Pos \<lparr>X = 4, Y = 4\<rparr>" "\<lparr>X = 12, Y = 12\<rparr>" ci u])
    (auto simp: ret_def Nat2_add_def)

lemma Checkbox_draw_bad_border:
  assumes "CheckboxStates u Label = Some r"
    and "out_of_range cb (ColorPalette u)"
  shows "\<exists>es. Checkbox_draw be Label Pos FontName cb ci ct hov u = (Inl IndexError, u, es) \<and>
           (\<forall>ev \<in> set es. \<exists>c. ev = FillRect (SDL_Rect (X Pos + 4) (Y Pos + 4) 12 12) c)"
proof -
  have g: "CheckboxStates_get Label u = (Inr r, u, [])"
    using assms(1) by (simp add: CheckboxStates_get_def lift_def)
  let ?fill = "if checked r
           then Rect_draw (Nat2_add Pos \<lparr>X = 4, Y = 4\<rparr>) \<lparr>X = 20 - 8, Y = 20 - 8\<rparr> ci
           else ret ()"
  have b: "RectBorder Pos \<lparr>X = 20, Y = 20\<rparr> cb 2 u = (Inl IndexError, u, [])"
    using palette_bad_index [OF assms(2)]
    by (cases rule: RectBorder_cases [of Pos "\<lparr>X = 20, Y = 20\<rparr>" cb 2 u]) simp_all
  from Checkbox_fill_cases [of "checked r" Pos ci u] show ?thesis
  proof
    assume f: "?fill u = (Inl IndexError, u, [])"
    have "Checkbox_draw be Label Pos FontName cb ci ct hov u = (Inl IndexError, u, [])"
      using f by (simp add: Checkbox_draw_def seq_def g cong: if_cong)
    then show ?thesis by simp
  next
    assume "\<exists>es. ?fill u = (Inr (), u, es) \<and>
         (\<forall>ev \<in> set es. \<exists>c. ev = FillRect (SDL_Rect (X Pos + 4) (Y Pos + 4) 12 12) c)"
    then obtain es0 where f: "?fill u = (Inr (), u, es0)"
      and es0: "\<forall>ev \<in> set es0. \<exists>c. ev = FillRect (SDL_Rect (X Pos + 4) (Y Pos + 4) 12 12) c"
      by blast
    have "Checkbox_draw be Label Pos FontName cb ci ct hov u = (Inl IndexError, u, es0)"
      using f b by (simp add: Checkbox_draw_def seq_def g cong: if_cong)
    with es0 show ?thesis by blast
  qed
qed

lemma Checkbox_draw_bad_text:
  assumes "CheckboxStates u Label = Some r"
    and "out_of_range ct (ColorPalette u)"
  shows "\<exists>es. Checkbox_draw be Label Pos FontName cb ci ct hov u = (Inl IndexError, u, es) \<and>
           (\<forall>ev \<in> set es. \<exists>R c. ev = FillRect R c)"
proof -
  have g: "CheckboxStates_get Label u = (Inr r, u, [])"
    using assms(1) by (simp add: CheckboxStates_get_def lift_def)
  let ?fill = "if checked r
           then Rect_draw (Nat2_add Pos \<lparr>X = 4, Y = 4\<rparr>) \<lparr>X = 20 - 8, Y = 20 - 8\<rparr> ci
           else ret ()"
  have t: "Text be Label (Nat2_add Pos \<lparr>X = 20 + 10, Y = 0\<rparr>) FontName ct False u =
             (Inl IndexError, u, [])"
    by (rule Text_bad_index [OF palette_bad_index [OF assms(2)]])
  from Checkbox_fill_cases [of "checked r" Pos ci u] show ?thesis
  proof
    assume f: "?fill u = (Inl IndexError, u, [])"
    have "Checkbox_draw be Label Pos FontName cb ci ct hov u = (Inl IndexError, u, [])"
      using f by (simp add: Checkbox_draw_def seq_def g cong: if_cong)
    then show ?thesis by simp
  next
    assume "\<exists>es. ?fill u = (Inr (), u, es) \<and>
         (\<forall>ev \<in> set es. \<exists>c. ev = FillRect (SDL_Rect (X Pos + 4) (Y Pos + 4) 12 12) c)"
    then obtain es0 where f: "?fill u = (Inr (), u, es0)"
      and es0: "\<forall>ev \<in> set es0. \<exists>c. ev = FillRect (SDL_Rect (X Pos + 4) (Y Pos + 4) 12 12) c"
      by blast
    show ?thesis
    proof (cases rule: RectBorder_cases [of Pos "\<lparr>X = 20, Y = 20\<rparr>" cb 2 u])
      case fails
      have "Checkbox_draw be Label Pos FontName cb ci ct hov u = (Inl IndexError, u, es0)"
        using f fails by (simp add: Checkbox_draw_def seq_def g cong: if_cong)
      with es0 show ?thesis by blast
    next
      case (draws Color)
      have "\<exists>es. Checkbox_draw be Label Pos FontName cb ci ct hov u = (Inl IndexError, u, es) \<and>
                (\<forall>ev \<in> set es. \<exists>R c. ev = FillRect R c)"
        using f draws(2) t es0
        by (auto simp: Checkbox_draw_def seq_def g cong: if_cong)
      then show ?thesis .
    qed
  qed
qed

lemma Checkbox_draw_bad_inner:
  assumes "CheckboxStates u Label = Some r" and "checked r"
    and "out_of_range ci (ColorPalette u)"
  shows "Checkbox_draw be Label Pos FontName cb ci ct hov u = (Inl IndexError, u, [])"
proof -
  have g: "CheckboxStates_get Label u = (Inr r, u, [])"
    using assms(1) by (simp add: CheckboxStates_get_def lift_def)
  have "Rect_draw (Nat2_add Pos \<lparr>X = 4, Y = 4\<rparr>) \<lparr>X = 20 - 8, Y = 20 - 8\<rparr> ci u =
          (Inl IndexError, u, [])"
    by (rule Rect_draw_bad_index [OF palette_bad_index [OF assms(3)]])
  then show ?thesis
    using assms(2) by (simp add: Checkbox_draw_def seq_def g cong: if_cong)
qed

lemma Checkbox_toggle_bad_inner_hover:
  assumes "CheckboxStates u Label = Some r" and "hov" and "\<not> checked r"
    and "out_of_range cih (ColorPalette u)"
  shows "Checkbox_toggle be Label Pos cih hov u = (Inl IndexError, u, [])"
proof -
  have g: "CheckboxStates_get Label u = (Inr r, u, [])"
    using assms(1) by (simp add: CheckboxStates_get_def lift_def)
  have "Rect_draw (Nat2_add Pos \<lparr>X = 4, Y = 4\<rparr>) \<lparr>X = 20 - 8, Y = 20 - 8\<rparr> cih u =
          (Inl IndexError, u, [])"
    by (rule Rect_draw_bad_index [OF palette_bad_index [OF assms(4)]])
  then show ?thesis
    using assms(2,3) by (simp add: Checkbox_toggle_def seq_def g)
qed

lemma ColorPalette_Checkbox_entry: "ColorPalette (Checkbox_entry Label u) = ColorPalette u"
  by (simp add: Checkbox_entry_def)

lemma Checkbox_bad_inner_hover:
  assumes "CheckboxStates (Checkbox_entry Label u) Label = Some rc"
    and "RectIsHover be \<lparr>XY = Pos, WH = \<lparr>X = 20, Y = 20\<rparr>\<rparr>" and "\<not> checked rc"
    and "out_of_range cih (ColorPalette u)"
  shows "Checkbox be Label Pos FontName cb ci cih ct u = (Inl IndexError, Checkbox_entry Label u, [])"
proof -
  let ?u1 = "Checkbox_entry Label u"
  let ?hov = "RectIsHover be \<lparr>XY = Pos, WH = \<lparr>X = 20, Y = 20\<rparr>\<rparr>"
  let ?T = "Checkbox_toggle be Label Pos cih ?hov"
  let ?D = "\<lambda>_::unit. Checkbox_draw be Label Pos FontName cb ci ct ?hov"
  have p: "out_of_range cih (ColorPalette ?u1)"
    using assms(4) by (simp only: ColorPalette_Checkbox_entry)
  have "?T ?u1 = (Inl IndexError, ?u1, [])"
    by (rule Checkbox_toggle_bad_inner_hover [OF assms(1,2,3) p])
  from seq_error [where f = ?T and g = ?D, OF this] show ?thesis
    by (simp add: Checkbox_unfold)
qed

lemma Checkbox_after_toggle:
  assumes r0: "CheckboxStates (Checkbox_entry Label u) Label = Some rc"
    and dn: "IsClick be ''Left'' = Inr down"
    and D: "\<And>u2 :: ui. CheckboxStates u2 Label =
                 Some (Checkbox_rule (RectIsHover be \<lparr>XY = Pos, WH = \<lparr>X = 20, Y = 20\<rparr>\<rparr>) down rc) \<Longrightarrow>
               ColorPalette u2 = ColorPalette u \<Longrightarrow>
               \<exists>es. Checkbox_draw be Label Pos FontName cb ci ct
                      (RectIsHover be \<lparr>XY = Pos, WH = \<lparr>X = 20, Y = 20\<rparr>\<rparr>) u2 = (Inl IndexError, u2, es) \<and>
                    (\<forall>ev \<in> set es. P ev)"
    and P: "\<And>c. P (FillRect (SDL_Rect (X Pos + 4) (Y Pos + 4) 12 12) c)"
  shows "fst (Checkbox be Label Pos FontName cb ci cih ct u) = Inl IndexError \<and>
         (\<forall>ev \<in> set (snd (snd (Checkbox be Label Pos FontName cb ci cih ct u))). P ev)"
proof -
  let ?u1 = "Checkbox_entry Label u"
  let ?hov = "RectIsHover be \<lparr>XY = Pos, WH = \<lparr>X = 20, Y = 20\<rparr>\<rparr>"
  let ?T = "Checkbox_toggle be Label Pos cih ?hov"
  let ?D = "\<lambda>_::unit. Checkbox_draw be Label Pos FontName cb ci ct ?hov"
  have unf: "Checkbox be Label Pos FontName cb ci cih ct u = seq ?T ?D ?u1"
    by (rule Checkbox_unfold)
  from r0 dn show ?thesis
  proof (cases rule: Checkbox_toggle_cases [where hov = ?hov and Pos = Pos and cih = cih])
    case fails
    from seq_error [where f = ?T and g = ?D, OF fails(4)] unf
    show ?thesis by simp
  next
    case (toggles es)
    let ?u2 = "?u1\<lparr>CheckboxStates := (CheckboxStates ?u1)(Label \<mapsto> Checkbox_rule ?hov down rc)\<rparr>"
    have r2: "CheckboxStates ?u2 Label = Some (Checkbox_rule ?hov down rc)"
      by simp
    have p2: "ColorPalette ?u2 = ColorPalette u"
      by (simp add: ColorPalette_Checkbox_entry)
    from seq_result [where f = ?T and g = ?D, OF toggles(1)] unf
    have k: "Checkbox be Label Pos FontName cb ci cih ct u =
        (case Checkbox_draw be Label Pos FontName cb ci ct ?hov ?u2 of
           (r, u'', es') \<Rightarrow> (r, u'', es @ es'))"
      by simp
    from D [OF r2 p2]
    obtain es' where "Checkbox_draw be Label Pos FontName cb ci ct ?hov ?u2 = (Inl IndexError, ?u2, es')"
      and "\<forall>ev \<in> set es'. P ev"
      by blast
    with k toggles(2) P show ?thesis by auto
  qed
qed

lemma Checkbox_bad_border:
  assumes "CheckboxStates (Checkbox_entry Label u) Label = Some rc"
    and "IsClick be ''Left'' = Inr down"
    and "out_of_range cb (ColorPalette u)"
  shows "fst (Checkbox be Label Pos FontName cb ci cih ct u) = Inl IndexError \<and>
         (\<forall>ev \<in> set (snd (snd (Checkbox be Label Pos FontName cb ci cih ct u))).
            \<exists>c. ev = FillRect (SDL_Rect (X Pos + 4) (Y Pos + 4) 12 12) c)"
proof (rule Checkbox_after_toggle [OF assms(1,2)])
  fix u2 :: ui
  assume "CheckboxStates u2 Label =
      Some (Checkbox_rule (RectIsHover be \<lparr>XY = Pos, WH = \<lparr>X = 20, Y = 20\<rparr>\<rparr>) down rc)"
    and "ColorPalette u2 = ColorPalette u"
  with assms(3) show "\<exists>es. Checkbox_draw be Label Pos FontName cb ci ct
         (RectIsHover be \<lparr>XY = Pos, WH = \<lparr>X = 20, Y = 20\<rparr>\<rparr>) u2 = (Inl IndexError, u2, es) \<and>
       (\<forall>ev \<in> set es. \<exists>c. ev = FillRect (SDL_Rect (X Pos + 4) (Y Pos + 4) 12 12) c)"
    by (simp add: Checkbox_draw_bad_border)
qed blast

lemma Checkbox_bad_text:
  assumes "CheckboxStates (Checkbox_entry Label u) Label = Some rc"
    and "IsClick be ''Left'' = Inr down"
    and "out_of_range ct (ColorPalette u)"
  shows "fst (Checkbox be Label Pos FontName cb ci cih ct u) = Inl IndexError \<and>
         (\<forall>ev \<in> set (snd (snd (Checkbox be Label Pos FontName cb ci cih ct u))).
            \<exists>R c. ev = FillRect R c)"
proof (rule Checkbox_after_toggle [OF assms(1,2)])
  fix u2 :: ui
  assume "CheckboxStates u2 Label =
      Some (Checkbox_rule (RectIsHover be \<lparr>XY = Pos, WH = \<lparr>X = 20, Y = 20\<rparr>\<rparr>) down rc)"
    and "ColorPalette u2 = ColorPalette u"
  with assms(3) show "\<exists>es. Checkbox_draw be Label Pos FontName cb ci ct
         (RectIsHover be \<lparr>XY = Pos, WH = \<lparr>X = 20, Y = 20\<rparr>\<rparr>) u2 = (Inl IndexError, u2, es) \<and>
       (\<forall>ev \<in> set es. \<exists>R c. ev = FillRect R c)"
    by (simp add: Checkbox_draw_bad_text)
qed blast

lemma Checkbox_bad_inner:
  assumes "CheckboxStates (Checkbox_entry Label u) Label = Some rc"
    and "IsClick be ''Left'' = Inr down"
    and "checked (Checkbox_rule (RectIsHover be \<lparr>XY = Pos, WH = \<lparr>X = 20, Y = 20\<rparr>\<rparr>) down rc)"
    and "out_of_range ci (ColorPalette u)"
  shows "fst (Checkbox be Label Pos FontName cb ci cih ct u) = Inl IndexError \<and>
         (\<forall>ev \<in> set (snd (snd (Checkbox be Label Pos FontName cb ci cih ct u))).
            \<exists>c. ev = FillRect (SDL_Rect (X Pos + 4) (Y Pos + 4) 12 12) c)"
proof (rule Checkbox_after_toggle [OF assms(1,2)])
  fix u2 :: ui
  assume "CheckboxStates u2 Label =
      Some (Checkbox_rule (RectIsHover be \<lparr>XY = Pos, WH = \<lparr>X = 20, Y = 20\<rparr>\<rparr>) down rc)"
    and "ColorPalette u2 = ColorPalette u"
  with assms(3,4) show "\<exists>es. Checkbox_draw be Label Pos FontName cb ci ct
         (RectIsHover be \<lparr>XY = Pos, WH = \<lparr>X = 20, Y = 20\<rparr>\<rparr>) u2 = (Inl IndexError, u2, es) \<and>
       (\<forall>ev \<in> set es. \<exists>c. ev = FillRect (SDL_Rect (X Pos + 4) (Y Pos + 4) 12 12) c)"
    by (simp add: Checkbox_draw_bad_inner)
qed blast


text \<open>
  C5, as amended. An index outside \<open>[-len, len)\<close> of the palette makes the lookup
  raise \<^verbatim>\<open>IndexError\<close>, with no clamping, and the failure is immediate: no call is
  issued after the failing lookup. Lookup by lookup, for such an index:
  \<^item> \<open>Rect\<close> and \<open>Text\<close> raise before issuing any call, the state unchanged;
  \<^item> \<open>Button\<close> with it as text index raises at the measuring of the label, no call
    issued;
  \<^item> \<open>Button\<close> whose label measures and which does not call the handler raises with
    no call issued when the index is the hover index and the button is hovered, or the
    normal index and the button is not hovered;
  \<^item> \<open>Button\<close> on a fresh press, with the index as hover index out of range for the
    palette the handler leaves, raises after the handler call and issues nothing else;
  \<^item> \<open>Checkbox\<close> with it as border index raises having issued at most fills of the
    inner square: no border strip and no label;
  \<^item> \<open>Checkbox\<close> with it as text index raises having issued only fills: no label;
  \<^item> \<open>Checkbox\<close> with it as inner hover index, hovered and unchecked, raises with no
    call issued;
  \<^item> \<open>Checkbox\<close> with it as inner index, checked after the toggle, raises having
    issued at most the hover fill of the inner square.
  An index in \<open>[-len, 0)\<close> does not fail: as in any Python list it counts from the
  end, \<open>idx\<close> resolving to entry \<open>len + idx\<close> of the palette of the current mode.
  \<open>rb\<close> and \<open>rc\<close> are the records of the label after the entry of \<open>Button\<close> and
  of \<open>Checkbox\<close>, \<open>down\<close> is the sampled left button.
\<close>

theorem palette_index_out_of_range:
  assumes "Buttons (Button_entry Label u) Label = Some rb"
    and "CheckboxStates (Checkbox_entry Label u) Label = Some rc"
    and "IsClick be ''Left'' = Inr down"
  shows
    "(out_of_range idx (ColorPalette u) \<longrightarrow>
        py_index (ColorPaletteMode u) idx = Inl IndexError \<and>
        Rect_draw Pos Size idx u = (Inl IndexError, u, []) \<and>
        Text be Str Pos FontName idx NoDraw u = (Inl IndexError, u, []) \<and>
        Button be Label Pos FontName OnClick idx ch cn u =
          (Inl IndexError, Button_entry Label u, []) \<and>
        (fst (Text be Label Pos FontName ct True u) = Inr TR \<and>
         \<not> (RectIsHover be (Button_rect TR) \<and> down \<and> \<not> prev_mouse_down rb) \<longrightarrow>
           (RectIsHover be (Button_rect TR) \<longrightarrow>
              Button be Label Pos FontName OnClick ct idx cn u =
                (Inl IndexError, Button_entry Label u, [])) \<and>
           (\<not> RectIsHover be (Button_rect TR) \<longrightarrow>
              Button be Label Pos FontName OnClick ct ch idx u =
                (Inl IndexError, Button_entry Label u, []))) \<and>
        fst (Checkbox be Label Pos FontName idx ci cih ct u) = Inl IndexError \<and>
        (\<forall>ev \<in> set (snd (snd (Checkbox be Label Pos FontName idx ci cih ct u))).
           \<exists>c. ev = FillRect (SDL_Rect (X Pos + 4) (Y Pos + 4) 12 12) c) \<and>
        fst (Checkbox be Label Pos FontName cb ci cih idx u) = Inl IndexError \<and>
        (\<forall>ev \<in> set (snd (snd (Checkbox be Label Pos FontName cb ci cih idx u))).
           \<exists>R c. ev = FillRect R c) \<and>
        (RectIsHover be \<lparr>XY = Pos, WH = \<lparr>X = 20, Y = 20\<rparr>\<rparr> \<and> \<not> checked rc \<longrightarrow>
           Checkbox be Label Pos FontName cb ci idx ct u =
             (Inl IndexError, Checkbox_entry Label u, [])) \<and>
        (checked (Checkbox_rule (RectIsHover be \<lparr>XY = Pos, WH = \<lparr>X = 20, Y = 20\<rparr>\<rparr>) down rc) \<longrightarrow>
           fst (Checkbox be Label Pos FontName cb idx cih ct u) = Inl IndexError \<and>
           (\<forall>ev \<in> set (snd (snd (Checkbox be Label Pos FontName cb idx cih ct u))).
              \<exists>c. ev = FillRect (SDL_Rect (X Pos + 4) (Y Pos + 4) 12 12) c))) \<and>
     (fst (Text be Label Pos FontName ct True u) = Inr TR \<and>
      RectIsHover be (Button_rect TR) \<and> down \<and> \<not> prev_mouse_down rb \<and>
      OnClick (Button_entry Label u) = (Inr (), u2, es) \<and>
      out_of_range idx (ColorPalette u2) \<longrightarrow>
        Button be Label Pos FontName OnClick ct idx cn u =
          (Inl IndexError, u2, [OnClickCall es])) \<and>
     (- int (length (ColorPalette u)) \<le> idx \<and> idx < 0 \<longrightarrow>
        py_index (ColorPaletteMode u) idx =
          Inr (ColorPaletteMode u ! nat (int (length (ColorPalette u)) + idx)) \<and>
        Rect_draw Pos Size idx u =
          (Inr (), u,
           [FillRect (SDL_Rect (X Pos) (Y Pos) (X Size) (Y Size))
              (ColorPaletteMode u ! nat (int (length (ColorPalette u)) + idx))]))"
proof (intro conjI; rule impI)
  assume i: "out_of_range idx (ColorPalette u)"
  note p = palette_bad_index [OF i]
  have bg: "fst (Text be Label Pos FontName ct True u) = Inr TR \<and>
         \<not> (RectIsHover be (Button_rect TR) \<and> down \<and> \<not> prev_mouse_down rb) \<longrightarrow>
           (RectIsHover be (Button_rect TR) \<longrightarrow>
              Button be Label Pos FontName OnClick ct idx cn u =
                (Inl IndexError, Button_entry Label u, [])) \<and>
           (\<not> RectIsHover be (Button_rect TR) \<longrightarrow>
              Button be Label Pos FontName OnClick ct ch idx u =
                (Inl IndexError, Button_entry Label u, []))"
  proof (intro impI conjI)
    assume a: "fst (Text be Label Pos FontName ct True u) = Inr TR \<and>
         \<not> (RectIsHover be (Button_rect TR) \<and> down \<and> \<not> prev_mouse_down rb)"
      and h: "RectIsHover be (Button_rect TR)"
    from a have t: "fst (Text be Label Pos FontName ct True u) = Inr TR"
      and n: "\<not> (RectIsHover be (Button_rect TR) \<and> down \<and> \<not> prev_mouse_down rb)" by simp_all
    from h i have "out_of_range (if RectIsHover be (Button_rect TR) then idx else cn) (ColorPalette u)"
      by simp
    from Button_bad_background [OF t assms(1) assms(3) n this]
    show "Button be Label Pos FontName OnClick ct idx cn u =
                (Inl IndexError, Button_entry Label u, [])" .
  next
    assume a: "fst (Text be Label Pos FontName ct True u) = Inr TR \<and>
         \<not> (RectIsHover be (Button_rect TR) \<and> down \<and> \<not> prev_mouse_down rb)"
      and h: "\<not> RectIsHover be (Button_rect TR)"
    from a have t: "fst (Text be Label Pos FontName ct True u) = Inr TR"
      and n: "\<not> (RectIsHover be (Button_rect TR) \<and> down \<and> \<not> prev_mouse_down rb)" by simp_all
    from h i have "out_of_range (if RectIsHover be (Button_rect TR) then ch else idx) (ColorPalette u)"
      by simp
    from Button_bad_background [OF t assms(1) assms(3) n this]
    show "Button be Label Pos FontName OnClick ct ch idx u =
                (Inl IndexError, Button_entry Label u, [])" .
  qed
  have ih: "RectIsHover be \<lparr>XY = Pos, WH = \<lparr>X = 20, Y = 20\<rparr>\<rparr> \<and> \<not> checked rc \<longrightarrow>
           Checkbox be Label Pos FontName cb ci idx ct u =
             (Inl IndexError, Checkbox_entry Label u, [])"
    using Checkbox_bad_inner_hover [OF assms(2) _ _ i] by blast
  have inn: "checked (Checkbox_rule (RectIsHover be \<lparr>XY = Pos, WH = \<lparr>X = 20, Y = 20\<rparr>\<rparr>) down rc) \<longrightarrow>
           fst (Checkbox be Label Pos FontName cb idx cih ct u) = Inl IndexError \<and>
           (\<forall>ev \<in> set (snd (snd (Checkbox be Label Pos FontName cb idx cih ct u))).
              \<exists>c. ev = FillRect (SDL_Rect (X Pos + 4) (Y Pos + 4) 12 12) c)"
    using Checkbox_bad_inner [OF assms(2) assms(3) _ i] by blast
  note cbr = Checkbox_bad_border [OF assms(2) assms(3) i]
  note ctx = Checkbox_bad_text [OF assms(2) assms(3) i]
  show "py_index (ColorPaletteMode u) idx = Inl IndexError \<and>
        Rect_draw Pos Size idx u = (Inl IndexError, u, []) \<and>
        Text be Str Pos FontName idx NoDraw u = (Inl IndexError, u, []) \<and>
        Button be Label Pos FontName OnClick idx ch cn u =
          (Inl IndexError, Button_entry Label u, []) \<and>
        (fst (Text be Label Pos FontName ct True u) = Inr TR \<and>
         \<not> (RectIsHover be (Button_rect TR) \<and> down \<and> \<not> prev_mouse_down rb) \<longrightarrow>
           (RectIsHover be (Button_rect TR) \<longrightarrow>
              Button be Label Pos FontName OnClick ct idx cn u =
                (Inl IndexError, Button_entry Label u, [])) \<and>
           (\<not> RectIsHover be (Button_rect TR) \<longrightarrow>
              Button be Label Pos FontName OnClick ct ch idx u =
                (Inl IndexError, Button_entry Label u, []))) \<and>
        fst (Checkbox be Label Pos FontName idx ci cih ct u) = Inl IndexError \<and>
        (\<forall>ev \<in> set (snd (snd (Checkbox be Label Pos FontName idx ci cih ct u))).
           \<exists>c. ev = FillRect (SDL_Rect (X Pos + 4) (Y Pos + 4) 12 12) c) \<and>
        fst (Checkbox be Label Pos FontName cb ci cih idx u) = Inl IndexError \<and>
        (\<forall>ev \<in> set (snd (snd (Checkbox be Label Pos FontName cb ci cih idx u))).
           \<exists>R c. ev = FillRect R c) \<and>
        (RectIsHover be \<lparr>XY = Pos, WH = \<lparr>X = 20, Y = 20\<rparr>\<rparr> \<and> \<not> checked rc \<longrightarrow>
           Checkbox be Label Pos FontName cb ci idx ct u =
             (Inl IndexError, Checkbox_entry Label u, [])) \<and>
        (checked (Checkbox_rule (RectIsHover be \<lparr>XY = Pos, WH = \<lparr>X = 20, Y = 20\<rparr>\<rparr>) down rc) \<longrightarrow>
           fst (Checkbox be Label Pos FontName cb idx cih ct u) = Inl IndexError \<and>
           (\<forall>ev \<in> set (snd (snd (Checkbox be Label Pos FontName cb idx cih ct u))).
              \<exists>c. ev = FillRect (SDL_Rect (X Pos + 4) (Y Pos + 4) 12 12) c))"
    by (intro conjI)
      (rule p, rule Rect_draw_bad_index [OF p], rule Text_bad_index [OF p],
       rule Button_bad_text_index [OF i], rule bg,
       rule cbr [THEN conjunct1], rule cbr [THEN conjunct2],
       rule ctx [THEN conjunct1], rule ctx [THEN conjunct2], rule ih, rule inn)
next
  assume a: "fst (Text be Label Pos FontName ct True u) = Inr TR \<and>
      RectIsHover be (Button_rect TR) \<and> down \<and> \<not> prev_mouse_down rb \<and>
      OnClick (Button_entry Label u) = (Inr (), u2, es) \<and>
      out_of_range idx (ColorPalette u2)"
  then have t: "fst (Text be Label Pos FontName ct True u) = Inr TR"
    and n: "RectIsHover be (Button_rect TR)" "down" "\<not> prev_mouse_down rb"
    and o: "OnClick (Button_entry Label u) = (Inr (), u2, es)"
    and i: "out_of_range idx (ColorPalette u2)"
    by simp_all
  from Button_bad_hover_click [where OnClick = OnClick and down = down, OF t assms(1) assms(3) n o i]
  show "Button be Label Pos FontName OnClick ct idx cn u =
          (Inl IndexError, u2, [OnClickCall es])" .
next
  assume "- int (length (ColorPalette u)) \<le> idx \<and> idx < 0"
  then have w: "py_index (ColorPaletteMode u) idx =
      Inr (ColorPaletteMode u ! nat (int (length (ColorPalette u)) + idx))"
    using py_index_negative [of "ColorPaletteMode u" idx]
    by (simp add: length_ColorPaletteMode)
  from w Rect_draw_ok [OF w]
  show "py_index (ColorPaletteMode u) idx =
          Inr (ColorPaletteMode u ! nat (int (length (ColorPalette u)) + idx)) \<and>
        Rect_draw Pos Size idx u =
          (Inr (), u,
           [FillRect (SDL_Rect (X Pos) (Y Pos) (X Size) (Y Size))
              (ColorPaletteMode u ! nat (int (length (ColorPalette u)) + idx))])"
    by simp
qed

text \<open>
  C5 as stated has every negative index fail. The example clears the screen with
  \<^verbatim>\<open>ColorIdx=-1\<close> (\<^verbatim>\<open>helloworld.py\<close>, line 32): on the palette of \<^verbatim>\<open>__init__\<close>
  the call returns and fills with the last colour.
\<close>

theorem palette_index_out_of_range_counterexample:
  "\<not> (0 \<le> (- 1 :: int) \<and> (- 1 :: int) < int (length (ColorPalette UiManager_init))) \<and>
   fst (Rect_draw \<lparr>X = 0, Y = 0\<rparr> \<lparr>X = 848, Y = 480\<rparr> (- 1) UiManager_init) = Inr () \<and>
   snd (snd (Rect_draw \<lparr>X = 0, Y = 0\<rparr> \<lparr>X = 848, Y = 480\<rparr> (- 1) UiManager_init)) =
     [FillRect \<lparr>XY = \<lparr>X = 0, Y = 0\<rparr>, WH = \<lparr>X = 848, Y = 480\<rparr>\<rparr> (Vec4 0 0.302 0.149 1)]"
  by code_simp


theorem palette_index_out_of_range_witness:
  "(Rect_draw \<lparr>X = 0, Y = 0\<rparr> \<lparr>X = 848, Y = 480\<rparr> 5 UiManager_init =
      (Inl IndexError, UiManager_init, []) \<and>
    Rect_draw \<lparr>X = 0, Y = 0\<rparr> \<lparr>X = 848, Y = 480\<rparr> (- 1) UiManager_init =
      (Inr (), UiManager_init,
       [FillRect \<lparr>XY = \<lparr>X = 0, Y = 0\<rparr>, WH = \<lparr>X = 848, Y = 480\<rparr>\<rparr> (Vec4 0 0.302 0.149 1)])) \<and>
   (fst (Button (ex_be 100 100 1) ''OK'' \<lparr>X = 100, Y = 100\<rparr> ''Medium'' SwitchMode 2 99 3
           ex_ui_released) = Inl IndexError \<and>
    snd (snd (Button (ex_be 100 100 1) ''OK'' \<lparr>X = 100, Y = 100\<rparr> ''Medium'' SwitchMode 2 99 3
           ex_ui_released)) = [OnClickCall []]) \<and>
   fst (Checkbox (ex_be 100 160 1) ''Testing'' \<lparr>X = 100, Y = 160\<rparr> ''Medium'' 0 7 2 0 ex_ui) =
     Inl IndexError"
proof -
  let ?P0 = "\<lparr>X = 0, Y = 0\<rparr>" and ?S0 = "\<lparr>X = 848, Y = 480\<rparr>"
  have b1: "Buttons (Button_entry ''OK'' UiManager_init) ''OK'' =
      Some \<lparr>active = True, mouse_down = True, prev_mouse_down = True\<rparr>"
    by code_simp
  have c1: "CheckboxStates (Checkbox_entry ''OK'' UiManager_init) ''OK'' =
      Some \<lparr>checked = False, cb_mouse_down = False\<rparr>"
    by code_simp
  have d1: "IsClick (ex_be 100 100 1) ''Left'' = Inr True"
    by code_simp
  have l: "int (length (ColorPalette UiManager_init)) = 5"
    by (simp add: UiManager_init_def)
  have n: "ColorPaletteMode UiManager_init ! nat (int (length (ColorPalette UiManager_init)) + - 1) =
      Vec4 0 0.302 0.149 1"
    by (simp add: ColorPaletteMode_def UiManager_init_def)
  have h1: "out_of_range 5 (ColorPalette UiManager_init)"
    using l by simp
  have h2: "- int (length (ColorPalette UiManager_init)) \<le> - 1 \<and> (- 1 :: int) < 0"
    using l by simp
  note T1 = palette_index_out_of_range [OF b1 c1 d1, where idx = 5
      and Pos = ?P0 and Size = ?S0]
  note T2 = palette_index_out_of_range [OF b1 c1 d1, where idx = "- 1"
      and Pos = ?P0 and Size = ?S0]
  from T1 h1 have A: "Rect_draw ?P0 ?S0 5 UiManager_init = (Inl IndexError, UiManager_init, [])"
    by blast
  from T2 h2 have "Rect_draw ?P0 ?S0 (- 1) UiManager_init =
      (Inr (), UiManager_init,
       [FillRect (SDL_Rect (X ?P0) (Y ?P0) (X ?S0) (Y ?S0))
          (ColorPaletteMode UiManager_init ! nat (int (length (ColorPalette UiManager_init)) + - 1))])"
    by blast
  moreover have "SDL_Rect (X ?P0) (Y ?P0) (X ?S0) (Y ?S0) = \<lparr>XY = ?P0, WH = ?S0\<rparr>"
    by code_simp
  ultimately have B: "Rect_draw ?P0 ?S0 (- 1) UiManager_init =
      (Inr (), UiManager_init, [FillRect \<lparr>XY = ?P0, WH = ?S0\<rparr> (Vec4 0 0.302 0.149 1)])"
    by (simp only: n)
  let ?u1 = "Button_entry ''OK'' ex_ui_released"
  let ?u2 = "?u1\<lparr>IsDarkMode := \<not> IsDarkMode ?u1\<rparr>"
  let ?TR = "\<lparr>XY = \<lparr>X = 100, Y = 100\<rparr>, WH = \<lparr>X = 16, Y = 16\<rparr>\<rparr>"
  have b2: "Buttons ?u1 ''OK'' =
      Some \<lparr>active = True, mouse_down = True, prev_mouse_down = False\<rparr>"
    by code_simp
  have c2: "CheckboxStates (Checkbox_entry ''OK'' ex_ui_released) ''OK'' =
      Some \<lparr>checked = False, cb_mouse_down = False\<rparr>"
    by code_simp
  have t2: "fst (Text (ex_be 100 100 1) ''OK'' \<lparr>X = 100, Y = 100\<rparr> ''Medium'' 2 True ex_ui_released) =
      Inr ?TR"
    by code_simp
  have hv: "RectIsHover (ex_be 100 100 1) (Button_rect ?TR)"
    by code_simp
  have o2: "SwitchMode ?u1 = (Inr (), ?u2, [])"
    by (simp add: SwitchMode_def modify_def)
  have "int (length (ColorPalette ?u1)) \<le> 99"
    by code_simp
  then have i2: "out_of_range 99 (ColorPalette ?u2)"
    by simp
  have pm: "\<not> prev_mouse_down \<lparr>active = True, mouse_down = True, prev_mouse_down = False\<rparr>"
    by simp
  note T3 = palette_index_out_of_range [OF b2 c2 d1, where idx = 99 and ct = 2 and cn = 3
      and Pos = "\<lparr>X = 100, Y = 100\<rparr>" and FontName = "''Medium''" and OnClick = SwitchMode
      and TR = ?TR and ?u2.0 = ?u2 and es = "[]"]
  from T3 t2 hv o2 i2 pm
  have "Button (ex_be 100 100 1) ''OK'' \<lparr>X = 100, Y = 100\<rparr> ''Medium'' SwitchMode 2 99 3
           ex_ui_released = (Inl IndexError, ?u2, [OnClickCall []])"
    by blast
  then have C: "fst (Button (ex_be 100 100 1) ''OK'' \<lparr>X = 100, Y = 100\<rparr> ''Medium'' SwitchMode 2 99 3
           ex_ui_released) = Inl IndexError"
      "snd (snd (Button (ex_be 100 100 1) ''OK'' \<lparr>X = 100, Y = 100\<rparr> ''Medium'' SwitchMode 2 99 3
           ex_ui_released)) = [OnClickCall []]"
    by simp_all
  have b3: "Buttons (Button_entry ''Testing'' ex_ui) ''Testing'' =
      Some \<lparr>active = True, mouse_down = True, prev_mouse_down = True\<rparr>"
    by code_simp
  have c3: "CheckboxStates (Checkbox_entry ''Testing'' ex_ui) ''Testing'' =
      Some \<lparr>checked = False, cb_mouse_down = False\<rparr>"
    by code_simp
  have d3: "IsClick (ex_be 100 160 1) ''Left'' = Inr True"
    by code_simp
  have k3: "checked (Checkbox_rule
      (RectIsHover (ex_be 100 160 1) \<lparr>XY = \<lparr>X = 100, Y = 160\<rparr>, WH = \<lparr>X = 20, Y = 20\<rparr>\<rparr>) True
      \<lparr>checked = False, cb_mouse_down = False\<rparr>)"
    by code_simp
  have "int (length (ColorPalette ex_ui)) \<le> 7"
    by code_simp
  then have i3: "out_of_range 7 (ColorPalette ex_ui)"
    by simp
  note T4 = palette_index_out_of_range [OF b3 c3 d3, where idx = 7 and cb = 0 and cih = 2 and ct = 0
      and Pos = "\<lparr>X = 100, Y = 160\<rparr>" and FontName = "''Medium''"]
  from T4 k3 i3
  have D: "fst (Checkbox (ex_be 100 160 1) ''Testing'' \<lparr>X = 100, Y = 160\<rparr> ''Medium'' 0 7 2 0 ex_ui) =
     Inl IndexError"
    by blast
  from A B C D show ?thesis by blast
qed

end
